theory Spec2Isabelle
  imports Complex_Main "HOL-Library.Multiset"
begin

section \<open>Shared Python notions\<close>

text \<open>
  Exceptions are values. Only the class and the message matter to the code under study:
  \<open>str(e)\<close> of an exception is its message.
\<close>

datatype py_error = ValueError string | IndexError string | RuntimeError string

fun str_of_error :: "py_error \<Rightarrow> string" where
  "str_of_error (ValueError m) = m"
| "str_of_error (IndexError m) = m"
| "str_of_error (RuntimeError m) = m"

text \<open>Values of type \<open>Any\<close> that the workflow code stores in its dictionaries.\<close>

datatype py_value = PyNone | PyBool bool | PyInt int | PyStr string

text \<open>Only warning-level log records are kept; a log is the list of their messages.\<close>

type_synonym log = "string list"

section \<open>Python strings\<close>

text \<open>
  A Python \<open>str\<close> is modelled by its UTF-8 bytes. Substring tests on bytes agree with the tests
  on code points. \<open>len\<close> and slicing count code points, so they skip the continuation bytes
  \<open>0x80\<close> to \<open>0xBF\<close>.
\<close>

text \<open>
  \<open>str.lower()\<close>: the ASCII letters \<open>A\<close> to \<open>Z\<close> are mapped, every other byte is kept. This
  is \<open>str.lower()\<close> on every text whose code points outside ASCII have no lowercase mapping
  (digits, punctuation, symbols, emoji). Cased letters outside ASCII are not mapped here, so
  on texts that hold them this function is not \<open>str.lower()\<close>; every theorem below
  evaluates it on texts without such letters only.
\<close>

definition lower_char :: "char \<Rightarrow> char" where
  "lower_char c =
     (let n = (of_char c :: nat) in if 65 \<le> n \<and> n \<le> 90 then char_of (n + 32) else c)"

definition py_lower :: "string \<Rightarrow> string" where
  "py_lower s = map lower_char s"

fun startswith :: "string \<Rightarrow> string \<Rightarrow> bool" where
  "startswith s [] = True"
| "startswith [] (p # ps) = False"
| "startswith (c # cs) (p # ps) = (c = p \<and> startswith cs ps)"

text \<open>
  The white space of \<open>str.strip()\<close>: the 29 code points for which \<open>str.isspace()\<close> holds,
  as their UTF-8 encodings (U+0009 to U+000D, U+001C to U+0020, U+0085, U+00A0, U+1680,
  U+2000 to U+200A, U+2028, U+2029, U+202F, U+205F, U+3000).
\<close>

definition space_encodings :: "string list" where
  "space_encodings =
     [[CHR 0x09], [CHR 0x0A], [CHR 0x0B], [CHR 0x0C], [CHR 0x0D], [CHR 0x1C], [CHR 0x1D],
      [CHR 0x1E], [CHR 0x1F], [CHR 0x20], [CHR 0xC2, CHR 0x85], [CHR 0xC2, CHR 0xA0],
      [CHR 0xE1, CHR 0x9A, CHR 0x80], [CHR 0xE2, CHR 0x80, CHR 0x80],
      [CHR 0xE2, CHR 0x80, CHR 0x81], [CHR 0xE2, CHR 0x80, CHR 0x82],
      [CHR 0xE2, CHR 0x80, CHR 0x83], [CHR 0xE2, CHR 0x80, CHR 0x84],
      [CHR 0xE2, CHR 0x80, CHR 0x85], [CHR 0xE2, CHR 0x80, CHR 0x86],
      [CHR 0xE2, CHR 0x80, CHR 0x87], [CHR 0xE2, CHR 0x80, CHR 0x88],
      [CHR 0xE2, CHR 0x80, CHR 0x89], [CHR 0xE2, CHR 0x80, CHR 0x8A],
      [CHR 0xE2, CHR 0x80, CHR 0xA8], [CHR 0xE2, CHR 0x80, CHR 0xA9],
      [CHR 0xE2, CHR 0x80, CHR 0xAF], [CHR 0xE2, CHR 0x81, CHR 0x9F],
      [CHR 0xE3, CHR 0x80, CHR 0x80]]"

text \<open>The length of the encoding, among \<open>encs\<close>, that the text starts with; \<open>0\<close> if none.\<close>

definition leading_length :: "string list \<Rightarrow> string \<Rightarrow> nat" where
  "leading_length encs s =
     (case find (\<lambda>e. startswith s e) encs of None \<Rightarrow> 0 | Some e \<Rightarrow> length e)"

text \<open>Dropping code points of \<open>encs\<close> from the front as long as there is one.\<close>

function strip_front :: "string list \<Rightarrow> string \<Rightarrow> string" where
  "strip_front encs s =
     (if s = [] \<or> leading_length encs s = 0 then s
      else strip_front encs (drop (leading_length encs s) s))"
  by pat_completeness auto
termination
  by (relation "measure (\<lambda>(encs, s). length s)") auto

declare strip_front.simps [simp del]

text \<open>
  \<open>str.strip()\<close>: white space is dropped from the front, then from the end. At the end a
  code point is recognised by its encoding read backwards; an encoding starts with a
  leading byte, so what is matched is a whole code point.
\<close>

definition py_strip :: "string \<Rightarrow> string" where
  "py_strip s =
     rev (strip_front (map rev space_encodings) (rev (strip_front space_encodings s)))"

text \<open>\<open>needle in haystack\<close>\<close>

fun py_in :: "string \<Rightarrow> string \<Rightarrow> bool" where
  "py_in needle [] = (needle = [])"
| "py_in needle (c # cs) = (startswith (c # cs) needle \<or> py_in needle cs)"

fun py_join :: "string \<Rightarrow> string list \<Rightarrow> string" where
  "py_join sep [] = []"
| "py_join sep [x] = x"
| "py_join sep (x # y # ys) = x @ sep @ py_join sep (y # ys)"

text \<open>
  \<open>repr\<close> of a \<open>str\<close> and of a list of \<open>str\<close>, as an f-string renders them. The quote is the
  double one when the text holds a single quote and no double quote, else the single one.
  The backslash, the quote, and the control characters of ASCII are escaped; other bytes
  are kept, as Python keeps printable code points.
\<close>

definition hex_digit :: "nat \<Rightarrow> char" where
  "hex_digit n = ''0123456789abcdef'' ! (n mod 16)"

definition repr_char :: "char \<Rightarrow> char \<Rightarrow> string" where
  "repr_char quote c =
     (if c = CHR 0x5C then [CHR 0x5C, CHR 0x5C]
      else if c = quote then [CHR 0x5C, quote]
      else if c = CHR 0x0A then [CHR 0x5C, CHR ''n'']
      else if c = CHR 0x0D then [CHR 0x5C, CHR ''r'']
      else if c = CHR 0x09 then [CHR 0x5C, CHR ''t'']
      else if (of_char c :: nat) < 32 \<or> (of_char c :: nat) = 127
      then [CHR 0x5C, CHR ''x'', hex_digit (of_char c div 16), hex_digit (of_char c mod 16)]
      else [c])"

definition py_repr_str :: "string \<Rightarrow> string" where
  "py_repr_str s =
     (let quote = (if CHR 0x27 \<in> set s \<and> CHR 0x22 \<notin> set s then CHR 0x22 else CHR 0x27)
      in [quote] @ concat (map (repr_char quote) s) @ [quote])"

definition py_repr_list :: "string list \<Rightarrow> string" where
  "py_repr_list xs = [CHR 0x5B] @ py_join '', '' (map py_repr_str xs) @ [CHR 0x5D]"

definition is_continuation :: "char \<Rightarrow> bool" where
  "is_continuation c = (let n = (of_char c :: nat) in 128 \<le> n \<and> n < 192)"

definition py_len :: "string \<Rightarrow> nat" where
  "py_len s = length (filter (\<lambda>c. \<not> is_continuation c) s)"

text \<open>\<open>s[:n]\<close> for \<open>n \<ge> 0\<close>: the first \<open>n\<close> code points.\<close>

fun py_take :: "nat \<Rightarrow> string \<Rightarrow> string" where
  "py_take n [] = []"
| "py_take n (c # cs) =
     (if is_continuation c then c # py_take n cs
      else (case n of 0 \<Rightarrow> [] | Suc m \<Rightarrow> c # py_take m cs))"

text \<open>
  \<open>xs[-n:]\<close> for an integer \<open>n\<close>: the last \<open>n\<close> elements when \<open>n\<close> is positive; for \<open>n = 0\<close> the
  slice starts at index \<open>0\<close> and is the whole list; for negative \<open>n\<close> it starts at index \<open>-n\<close>.
\<close>

definition py_slice_last :: "int \<Rightarrow> 'a list \<Rightarrow> 'a list" where
  "py_slice_last n xs = (if 0 < n then drop (length xs - nat n) xs else drop (nat (- n)) xs)"

section \<open>Workflow steps (agents/workflow\_manager.py)\<close>

datatype WorkflowStepType = TOOL_EXECUTION | DATA_PROCESSING | CONDITIONAL | NOTIFICATION

text \<open>
  The dataclass \<open>WorkflowStep\<close>. \<open>depends_on\<close>, \<open>condition\<close> and \<open>output_variable\<close>
  default to \<open>None\<close>. The parameter dictionary is kept as the list of its items in
  insertion order.
\<close>

record WorkflowStep =
  step_id :: string
  step_type :: WorkflowStepType
  tool_name :: string
  action :: string
  parameters :: "(string \<times> py_value) list"
  depends_on :: "string list option"
  condition :: "string option"
  output_variable :: "string option"

text \<open>
  The readiness test of \<open>_sort_steps_by_dependencies\<close>:
  \<open>not step.depends_on or all(dep in [s.step_id for s in sorted_steps] for dep in step.depends_on)\<close>.
  \<open>None\<close> and the empty list are both falsy.
\<close>

definition is_ready :: "WorkflowStep list \<Rightarrow> WorkflowStep \<Rightarrow> bool" where
  "is_ready sorted_steps step =
     (case depends_on step of
        None \<Rightarrow> True
      | Some ds \<Rightarrow> ds = [] \<or> list_all (\<lambda>dep. dep \<in> set (map step_id sorted_steps)) ds)"

text \<open>\<open>list.remove(x)\<close>: drops the first element equal to \<open>x\<close>, raises \<open>ValueError\<close> if there is none.\<close>

definition py_remove :: "'a \<Rightarrow> 'a list \<Rightarrow> py_error + 'a list" where
  "py_remove x xs =
     (if x \<in> set xs then Inr (remove1 x xs) else Inl (ValueError ''list.remove(x): x not in list''))"

text \<open>\<open>for step in ready_steps: remaining_steps.remove(step)\<close>\<close>

fun remove_all :: "'a list \<Rightarrow> 'a list \<Rightarrow> py_error + 'a list" where
  "remove_all [] remaining = Inr remaining"
| "remove_all (x # xs) remaining =
     (case py_remove x remaining of
        Inl e \<Rightarrow> Inl e
      | Inr remaining' \<Rightarrow> remove_all xs remaining')"

text \<open>The message of \<open>logger.warning\<close> in the fallback branch of the sort.\<close>

definition circular_warning :: string where
  "circular_warning = ''Circular dependency detected in workflow''"

text \<open>
  The \<open>while remaining_steps:\<close> loop of \<open>_sort_steps_by_dependencies\<close>, with the two
  local lists as arguments. The result carries the warnings logged on the way.
\<close>

function sort_loop :: "WorkflowStep list \<Rightarrow> WorkflowStep list \<Rightarrow> py_error + (WorkflowStep list \<times> log)" where
  "sort_loop sorted_steps remaining_steps =
     (if remaining_steps = [] then Inr (sorted_steps, [])
      else if filter (is_ready sorted_steps) remaining_steps = []
      then Inr (sorted_steps @ remaining_steps, [circular_warning])
      else (case remove_all (filter (is_ready sorted_steps) remaining_steps) remaining_steps of
              Inl e \<Rightarrow> Inl e
            | Inr remaining' \<Rightarrow>
                sort_loop (sorted_steps @ filter (is_ready sorted_steps) remaining_steps) remaining'))"
  by pat_completeness auto
termination
proof (relation "measure (\<lambda>(sorted_steps, remaining_steps). length remaining_steps)")
  show "wf (measure (\<lambda>(sorted_steps, remaining_steps). length remaining_steps))"
    by simp
next
  fix sorted_steps remaining_steps :: "WorkflowStep list" and remaining'
  assume ne: "filter (is_ready sorted_steps) remaining_steps \<noteq> []"
    and r: "remove_all (filter (is_ready sorted_steps) remaining_steps) remaining_steps = Inr remaining'"
  have removed: "length zs + length ys = length xs"
    if "remove_all ys xs = Inr zs" for ys xs zs :: "WorkflowStep list"
    using that
  proof (induction ys arbitrary: xs)
    case Nil
    then show ?case by simp
  next
    case (Cons y ys)
    from Cons.prems obtain xs' where
      one: "py_remove y xs = Inr xs'" and rest: "remove_all ys xs' = Inr zs"
      by (auto split: sum.splits)
    from one have "y \<in> set xs" and "xs' = remove1 y xs"
      by (auto simp: py_remove_def split: if_splits)
    then have "length xs = Suc (length xs')"
      by (simp add: length_remove1) (cases xs; auto)
    with Cons.IH [OF rest] show ?case by simp
  qed
  from ne have "0 < length (filter (is_ready sorted_steps) remaining_steps)"
    by simp
  with removed [OF r] have "length remaining' < length remaining_steps"
    by linarith
  then show "((sorted_steps @ filter (is_ready sorted_steps) remaining_steps, remaining'),
              (sorted_steps, remaining_steps))
             \<in> measure (\<lambda>(sorted_steps, remaining_steps). length remaining_steps)"
    by simp
qed

declare sort_loop.simps [simp del]

text \<open>\<open>sorted_steps = []; remaining_steps = steps.copy()\<close>, then the loop.\<close>

definition sort_steps_by_dependencies :: "WorkflowStep list \<Rightarrow> py_error + (WorkflowStep list \<times> log)" where
  "sort_steps_by_dependencies steps = sort_loop [] steps"

text \<open>The ids a step waits for: \<open>depends_on\<close> read as a list, \<open>None\<close> as the empty one.\<close>

definition deps_of :: "WorkflowStep \<Rightarrow> string list" where
  "deps_of step = (case depends_on step of None \<Rightarrow> [] | Some ds \<Rightarrow> ds)"

text \<open>
  Well-formedness of a workflow as the data model has it: every \<open>depends_on\<close> entry is the
  id of a step of the list, and the dependency graph on ids (an edge from a dependency to
  the step that waits for it) has no cycle.
\<close>

definition deps_present :: "WorkflowStep list \<Rightarrow> bool" where
  "deps_present steps =
     list_all (\<lambda>s. list_all (\<lambda>d. d \<in> set (map step_id steps)) (deps_of s)) steps"

definition dep_rel :: "WorkflowStep list \<Rightarrow> (string \<times> string) set" where
  "dep_rel steps = (\<Union>s \<in> set steps. (\<lambda>d. (d, step_id s)) ` set (deps_of s))"

text \<open>Every dependency of the step at position \<open>i\<close> is the id of a step at an earlier position.\<close>

definition deps_first :: "WorkflowStep list \<Rightarrow> bool" where
  "deps_first out = (\<forall>i < length out. set (deps_of (out ! i)) \<subseteq> step_id ` set (take i out))"

section \<open>Tool selection (agents/tool\_manager.py)\<close>

text \<open>
  A tool as the manager sees it: its \<open>name\<close> and its \<open>can_handle\<close> predicate. The
  predicate is code of the tool, so evaluating it either returns a truth value or raises.
\<close>

record BaseTool =
  name :: string
  can_handle :: "string \<Rightarrow> py_error + bool"

text \<open>
  The first loop of \<open>select_tool\<close>: every tool is asked in registration order, the ones that
  answer true are collected. No \<open>try\<close> surrounds the call, so the first predicate that
  raises ends the loop with its exception.
\<close>

fun collect_suitable :: "BaseTool list \<Rightarrow> string \<Rightarrow> py_error + BaseTool list" where
  "collect_suitable [] query = Inr []"
| "collect_suitable (tool # tools) query =
     (case can_handle tool query of
        Inl e \<Rightarrow> Inl e
      | Inr b \<Rightarrow>
          (case collect_suitable tools query of
             Inl e \<Rightarrow> Inl e
           | Inr suitable \<Rightarrow> Inr (if b then tool # suitable else suitable)))"

definition priority_order :: "string list" where
  "priority_order =
     [''GoogleSheets'', ''Gmail'', ''Dictionary'', ''Lyrics'', ''AdvancedAI'', ''Weather'', ''WebSearch'']"

text \<open>
  \<open>for tool_name in priority_order: for tool in suitable_tools: if tool.name == tool_name: return tool\<close>
\<close>

fun first_by_priority :: "string list \<Rightarrow> BaseTool list \<Rightarrow> BaseTool option" where
  "first_by_priority [] suitable = None"
| "first_by_priority (n # ns) suitable =
     (case find (\<lambda>tool. name tool = n) suitable of
        Some tool \<Rightarrow> Some tool
      | None \<Rightarrow> first_by_priority ns suitable)"

definition no_tool_warning :: "string \<Rightarrow> string" where
  "no_tool_warning query =
     ''ToolManager: No suitable tool found for the query: '' @ [CHR 0x27] @ query @ [CHR 0x27]"

text \<open>
  \<open>select_tool\<close>, over the registered list \<open>self.tools\<close>. The result pairs the warnings
  logged with the outcome: an exception, or the optional tool returned.
\<close>

definition select_tool :: "BaseTool list \<Rightarrow> string \<Rightarrow> log \<times> (py_error + BaseTool option)" where
  "select_tool tools query =
     (case collect_suitable tools query of
        Inl e \<Rightarrow> ([], Inl e)
      | Inr suitable_tools \<Rightarrow>
          (case (if suitable_tools \<noteq> [] then first_by_priority priority_order suitable_tools else None) of
             Some tool \<Rightarrow> ([], Inr (Some tool))
           | None \<Rightarrow>
               (case find (\<lambda>tool. name tool = ''WebSearch'') tools of
                  Some tool \<Rightarrow> ([], Inr (Some tool))
                | None \<Rightarrow> ([no_tool_warning query], Inr None))))"

section \<open>Workflow execution (agents/workflow\_manager.py)\<close>

type_synonym results_dict = "string \<rightharpoonup> py_value"

record WorkflowResult =
  success :: bool
  steps_completed :: nat
  total_steps :: nat
  results :: results_dict
  final_output :: string
  execution_time :: real
  errors :: "string list"

text \<open>
  What the executor gets from outside. \<open>invoke_tool\<close> is the part of \<open>_execute_step\<close> after the
  tool lookup: substituting the context into the parameters, building the query and awaiting
  the tool (or \<open>_execute_smart_email\<close>); it returns the tool's output or raises.
  \<open>generate_summary\<close> is \<open>_generate_workflow_summary\<close>, which asks the language model.
  \<open>repr_list\<close> renders a list of strings inside an f-string (\<open>py_repr_list\<close> in the
  concrete environments below), and the two
  clock values are the readings of \<open>time.time()\<close> at the start and at the end.
\<close>

record executor_env =
  invoke_tool :: "BaseTool \<Rightarrow> WorkflowStep \<Rightarrow> results_dict \<Rightarrow> py_error + py_value"
  generate_summary :: "WorkflowStep list \<Rightarrow> results_dict \<Rightarrow> string list \<Rightarrow> py_error + string"
  repr_list :: "string list \<Rightarrow> string"
  clock_start :: real
  clock_end :: real

text \<open>
  \<open>_execute_step\<close>: a step of type \<open>TOOL_EXECUTION\<close> looks its tool up by name in the
  manager's list and raises \<open>ValueError\<close> when there is none; any other step type yields
  \<open>None\<close>.
\<close>

definition execute_step ::
  "BaseTool list \<Rightarrow> executor_env \<Rightarrow> WorkflowStep \<Rightarrow> results_dict \<Rightarrow> py_error + py_value" where
  "execute_step tools env step context =
     (if step_type step = TOOL_EXECUTION then
        (case find (\<lambda>t. name t = tool_name step) tools of
           None \<Rightarrow> Inl (ValueError (''Tool '' @ tool_name step @ '' not found''))
         | Some tool \<Rightarrow> invoke_tool env tool step context)
      else Inr PyNone)"

text \<open>The three locals of \<open>execute_workflow\<close> that the loop over the run order updates.\<close>

record run_state =
  st_results :: results_dict
  st_errors :: "string list"
  st_completed :: nat

definition initial_state :: run_state where
  "initial_state = \<lparr>st_results = Map.empty, st_errors = [], st_completed = 0\<rparr>"

definition missing_deps :: "WorkflowStep \<Rightarrow> results_dict \<Rightarrow> string list" where
  "missing_deps step res =
     (case depends_on step of
        None \<Rightarrow> []
      | Some ds \<Rightarrow> filter (\<lambda>dep. res dep = None) ds)"

definition step_error_message :: "WorkflowStep \<Rightarrow> py_error \<Rightarrow> string" where
  "step_error_message step e = ''Error in step '' @ step_id step @ '': '' @ str_of_error e"

text \<open>
  One iteration of the loop body, with its \<open>try\<close>/\<open>except Exception\<close>: a step with missing
  dependencies records an error and is skipped; a step whose execution raises records an
  error; otherwise the output is stored under the step id and, when \<open>output_variable\<close> is
  truthy, under that name too.
\<close>

definition run_one :: "BaseTool list \<Rightarrow> executor_env \<Rightarrow> WorkflowStep \<Rightarrow> run_state \<Rightarrow> run_state" where
  "run_one tools env step st =
     (if missing_deps step (st_results st) \<noteq> [] then
        st\<lparr>st_errors := st_errors st @
              [''Missing dependencies for step '' @ step_id step @ '': ''
                 @ repr_list env (missing_deps step (st_results st))]\<rparr>
      else
        (case execute_step tools env step (st_results st) of
           Inl e \<Rightarrow> st\<lparr>st_errors := st_errors st @ [step_error_message step e]\<rparr>
         | Inr step_result \<Rightarrow>
             st\<lparr>st_results :=
                  (case output_variable step of
                     None \<Rightarrow> (st_results st)(step_id step \<mapsto> step_result)
                   | Some var \<Rightarrow>
                       if var = [] then (st_results st)(step_id step \<mapsto> step_result)
                       else (st_results st)(step_id step \<mapsto> step_result, var \<mapsto> step_result)),
                st_completed := st_completed st + 1\<rparr>))"

fun run_steps :: "BaseTool list \<Rightarrow> executor_env \<Rightarrow> WorkflowStep list \<Rightarrow> run_state \<Rightarrow> run_state" where
  "run_steps tools env [] st = st"
| "run_steps tools env (step # rest) st = run_steps tools env rest (run_one tools env step st)"

text \<open>
  \<open>execute_workflow\<close>. The outer \<open>except Exception\<close> turns an exception of the sort or of the
  summary into a failed result. The warnings logged come with the result.
\<close>

definition execute_workflow ::
  "BaseTool list \<Rightarrow> executor_env \<Rightarrow> WorkflowStep list \<Rightarrow> WorkflowResult \<times> log" where
  "execute_workflow tools env steps =
     (case sort_steps_by_dependencies steps of
        Inl e \<Rightarrow>
          (\<lparr>success = False, steps_completed = 0, total_steps = length steps,
            results = Map.empty, final_output = ''Workflow failed: '' @ str_of_error e,
            execution_time = clock_end env - clock_start env,
            errors = [str_of_error e]\<rparr>, [])
      | Inr (run_order, warnings) \<Rightarrow>
          (let st = run_steps tools env run_order initial_state in
           case generate_summary env steps (st_results st) (st_errors st) of
             Inl e \<Rightarrow>
               (\<lparr>success = False, steps_completed = st_completed st, total_steps = length steps,
                 results = st_results st, final_output = ''Workflow failed: '' @ str_of_error e,
                 execution_time = clock_end env - clock_start env,
                 errors = st_errors st @ [str_of_error e]\<rparr>, warnings)
           | Inr final \<Rightarrow>
               (\<lparr>success = (st_errors st = []), steps_completed = st_completed st,
                 total_steps = length steps, results = st_results st, final_output = final,
                 execution_time = clock_end env - clock_start env,
                 errors = st_errors st\<rparr>, warnings)))"

section \<open>Concrete workflows\<close>

text \<open>The two steps that \<open>_create_research_update_workflow\<close> builds, for a sample topic.\<close>

definition research_step :: WorkflowStep where
  "research_step =
     \<lparr>step_id = ''research'', step_type = TOOL_EXECUTION, tool_name = ''WebSearch'',
      action = ''search'',
      parameters = [(''query'', PyStr ''solar panels''), (''max_results'', PyInt 5)],
      depends_on = None, condition = None, output_variable = Some ''research_data''\<rparr>"

definition update_sheet_step :: WorkflowStep where
  "update_sheet_step =
     \<lparr>step_id = ''update_sheet'', step_type = TOOL_EXECUTION, tool_name = ''GoogleSheets'',
      action = ''add_data'',
      parameters = [(''data_source'', PyStr ''research_data''), (''format'', PyStr ''structured'')],
      depends_on = Some [''research''], condition = None, output_variable = None\<rparr>"

text \<open>A workflow whose two steps wait for each other.\<close>

definition step_a :: WorkflowStep where
  "step_a = \<lparr>step_id = ''a'', step_type = TOOL_EXECUTION, tool_name = ''Weather'',
      action = ''get_weather'', parameters = [], depends_on = Some [''b''],
      condition = None, output_variable = None\<rparr>"

definition step_b :: WorkflowStep where
  "step_b = \<lparr>step_id = ''b'', step_type = TOOL_EXECUTION, tool_name = ''WebSearch'',
      action = ''search'', parameters = [], depends_on = Some [''a''],
      condition = None, output_variable = None\<rparr>"

text \<open>An environment in which every tool answers and the summary succeeds.\<close>

definition quiet_env :: executor_env where
  "quiet_env = \<lparr>invoke_tool = (\<lambda>tool step context. Inr (PyStr ''ok'')),
      generate_summary = (\<lambda>steps res errs. Inr ''done''),
      repr_list = py_repr_list, clock_start = 0, clock_end = 1\<rparr>"

section \<open>Concrete tool lists\<close>

text \<open>
  The seven names that \<open>ToolManager.__init__\<close> registers, in its order, here with
  predicates that decline every query; and a tool whose predicate raises.
\<close>

definition declining :: "string \<Rightarrow> BaseTool" where
  "declining n = \<lparr>name = n, can_handle = (\<lambda>query. Inr False)\<rparr>"

definition registered_names :: "string list" where
  "registered_names =
     [''Weather'', ''GoogleSheets'', ''Gmail'', ''Lyrics'', ''Dictionary'', ''AdvancedAI'', ''WebSearch'']"

definition declining_tools :: "BaseTool list" where
  "declining_tools = map declining registered_names"

definition raising_tool :: BaseTool where
  "raising_tool = \<lparr>name = ''Lyrics'', can_handle = (\<lambda>query. Inl (RuntimeError ''boom''))\<rparr>"

section \<open>Concrete runs with a failing tool\<close>

text \<open>
  The weather and e-mail steps of \<open>_create_weather_email_workflow\<close> for a sample location, a
  further step that also waits for the weather, and a step whose id is the output variable
  of the weather step. In \<open>mail_down_env\<close> the Gmail tool raises, every other tool answers.
\<close>

definition weather_check_step :: WorkflowStep where
  "weather_check_step =
     \<lparr>step_id = ''weather_check'', step_type = TOOL_EXECUTION, tool_name = ''Weather'',
      action = ''get_weather'',
      parameters = [(''location'', PyStr ''Paris''), (''include_forecast'', PyBool True)],
      depends_on = None, condition = None, output_variable = Some ''weather_data''\<rparr>"

definition compose_email_step :: WorkflowStep where
  "compose_email_step =
     \<lparr>step_id = ''compose_email'', step_type = TOOL_EXECUTION, tool_name = ''Gmail'',
      action = ''send_email'',
      parameters = [(''recipient'', PyStr ''team''), (''subject'', PyStr ''Weather Update for Paris'')],
      depends_on = Some [''weather_check''], condition = None, output_variable = None\<rparr>"

definition log_sheet_step :: WorkflowStep where
  "log_sheet_step =
     \<lparr>step_id = ''log_sheet'', step_type = TOOL_EXECUTION, tool_name = ''GoogleSheets'',
      action = ''add_data'', parameters = [(''format'', PyStr ''structured'')],
      depends_on = Some [''weather_check''], condition = None, output_variable = None\<rparr>"

definition weather_data_step :: WorkflowStep where
  "weather_data_step =
     \<lparr>step_id = ''weather_data'', step_type = TOOL_EXECUTION, tool_name = ''Gmail'',
      action = ''send_email'', parameters = [(''recipient'', PyStr ''team'')],
      depends_on = None, condition = None, output_variable = None\<rparr>"

definition mail_down_env :: executor_env where
  "mail_down_env =
     \<lparr>invoke_tool = (\<lambda>tool step context.
         if name tool = ''Gmail'' then Inl (RuntimeError ''SMTP down'') else Inr (PyStr ''sunny'')),
      generate_summary = (\<lambda>steps res errs. Inr ''done''),
      repr_list = py_repr_list, clock_start = 0, clock_end = 1\<rparr>"

section \<open>Conversation memory (utils/conversation\_memory.py)\<close>

text \<open>Time stamps are the readings of \<open>time.time()\<close>, taken as real numbers.\<close>

record Message =
  role :: string
  content :: string
  timestamp :: real
  user_id :: string

record Conversation =
  conv_user_id :: string
  messages :: "Message list"
  created_at :: real
  last_updated :: real

record ConversationMemory =
  conversations :: "string \<rightharpoonup> Conversation"
  max_conversations :: int
  max_messages_per_conversation :: int

text \<open>
  \<open>ConversationMemory.__init__(self, max_conversations = 1000, max_messages_per_conversation = 100)\<close>;
  the conversations are the ones \<open>_load_conversations\<close> found in the storage file.
\<close>

definition default_max_conversations :: int where
  "default_max_conversations = 1000"

definition default_max_messages_per_conversation :: int where
  "default_max_messages_per_conversation = 100"

definition new_memory :: "int \<Rightarrow> int \<Rightarrow> (string \<rightharpoonup> Conversation) \<Rightarrow> ConversationMemory" where
  "new_memory max_convs max_msgs loaded =
     \<lparr>conversations = loaded, max_conversations = max_convs,
      max_messages_per_conversation = max_msgs\<rparr>"

definition default_memory :: "(string \<rightharpoonup> Conversation) \<Rightarrow> ConversationMemory" where
  "default_memory loaded =
     new_memory default_max_conversations default_max_messages_per_conversation loaded"

text \<open>
  \<open>IntelligentAgent.__init__\<close> builds its memory with
  \<open>ConversationMemory(max_conversations=1000, max_messages_per_conversation=50)\<close>.
\<close>

definition agent_memory :: "(string \<rightharpoonup> Conversation) \<Rightarrow> ConversationMemory" where
  "agent_memory loaded = new_memory 1000 50 loaded"

text \<open>
  The clock readings of one \<open>add_user_message\<close> or \<open>add_assistant_message\<close> call, in the order
  the code takes them: two when the conversation is created, two in \<open>add_message\<close>, one in
  \<open>clear_old_messages\<close>.
\<close>

record clock =
  t_created :: real
  t_created_updated :: real
  t_message :: real
  t_updated :: real
  t_cleanup :: real

definition get_or_create_conversation :: "ConversationMemory \<Rightarrow> string \<Rightarrow> clock \<Rightarrow> Conversation" where
  "get_or_create_conversation mem uid clk =
     (case conversations mem uid of
        Some conv \<Rightarrow> conv
      | None \<Rightarrow> \<lparr>conv_user_id = uid, messages = [], created_at = t_created clk,
                  last_updated = t_created_updated clk\<rparr>)"

definition add_message :: "Conversation \<Rightarrow> string \<Rightarrow> string \<Rightarrow> clock \<Rightarrow> Conversation" where
  "add_message conv r c clk =
     conv\<lparr>messages := messages conv
              @ [\<lparr>role = r, content = c, timestamp = t_message clk, user_id = conv_user_id conv\<rparr>],
          last_updated := t_updated clk\<rparr>"

text \<open>\<open>get_recent_messages\<close>: \<open>self.messages[-limit:] if self.messages else []\<close>\<close>

definition get_recent_messages :: "Conversation \<Rightarrow> int \<Rightarrow> Message list" where
  "get_recent_messages conv limit =
     (if messages conv \<noteq> [] then py_slice_last limit (messages conv) else [])"

definition get_context_string :: "Conversation \<Rightarrow> int \<Rightarrow> string" where
  "get_context_string conv limit =
     (let recent_messages = get_recent_messages conv limit in
      if recent_messages = [] then []
      else py_join [CHR 0x0A]
             (map (\<lambda>msg. (if role msg = ''user'' then ''User'' else ''Assistant'') @ '': '' @ content msg)
                  recent_messages))"

definition clear_old_messages :: "Conversation \<Rightarrow> int \<Rightarrow> real \<Rightarrow> Conversation" where
  "clear_old_messages conv max_age_hours now =
     conv\<lparr>messages := filter (\<lambda>msg. timestamp msg > now - real_of_int (max_age_hours * 3600))
                          (messages conv)\<rparr>"

text \<open>\<open>_cleanup_conversation\<close>: trim to the cap, then drop what is older than 24 hours.\<close>

definition cleanup_conversation :: "ConversationMemory \<Rightarrow> Conversation \<Rightarrow> real \<Rightarrow> Conversation" where
  "cleanup_conversation mem conv now =
     clear_old_messages
       (if int (length (messages conv)) > max_messages_per_conversation mem
        then conv\<lparr>messages := py_slice_last (max_messages_per_conversation mem) (messages conv)\<rparr>
        else conv)
       24 now"

text \<open>
  \<open>add_user_message\<close> and \<open>add_assistant_message\<close> differ in the role only. Writing the
  storage file is left out: \<open>_save_conversations\<close> catches its own exceptions.
\<close>

definition add_role_message ::
  "string \<Rightarrow> ConversationMemory \<Rightarrow> string \<Rightarrow> string \<Rightarrow> clock \<Rightarrow> ConversationMemory" where
  "add_role_message r mem uid message clk =
     mem\<lparr>conversations := (conversations mem)
            (uid \<mapsto> cleanup_conversation mem
                       (add_message (get_or_create_conversation mem uid clk) r message clk)
                       (t_cleanup clk))\<rparr>"

definition add_user_message :: "ConversationMemory \<Rightarrow> string \<Rightarrow> string \<Rightarrow> clock \<Rightarrow> ConversationMemory" where
  "add_user_message = add_role_message ''user''"

definition add_assistant_message :: "ConversationMemory \<Rightarrow> string \<Rightarrow> string \<Rightarrow> clock \<Rightarrow> ConversationMemory" where
  "add_assistant_message = add_role_message ''assistant''"

section \<open>Conversation analysis (utils/conversation\_memory.py)\<close>

definition all_content :: "Message list \<Rightarrow> string" where
  "all_content msgs = py_join '' '' (map (\<lambda>msg. py_lower (content msg)) msgs)"

definition topic_keywords :: "(string \<times> string list) list" where
  "topic_keywords =
     [(''Weather'', [''weather'', ''temperature'', ''forecast'', ''climate'', ''rain'', ''sunny'', ''cloudy'']),
      (''Email'', [''email'', ''mail'', ''send'', ''compose'', ''inbox'', ''outbox'']),
      (''Spreadsheets'', [''sheet'', ''spreadsheet'', ''excel'', ''google sheets'', ''data'', ''update'']),
      (''Web Search'', [''search'', ''find'', ''lookup'', ''research'', ''information'']),
      (''Dictionary'', [''define'', ''meaning'', ''word'', ''dictionary'', ''definition'']),
      (''Lyrics'', [''lyrics'', ''song'', ''music'', ''artist'', ''album'']),
      (''Technical'', [''code'', ''programming'', ''bug'', ''error'', ''fix'', ''debug'']),
      (''Business'', [''meeting'', ''client'', ''project'', ''business'', ''work'']),
      (''General'', [''hello'', ''hi'', ''how are you'', ''thanks'', ''thank you''])]"

text \<open>\<open>_extract_topics_from_messages\<close>\<close>

definition extract_topics_from_messages :: "Message list \<Rightarrow> string list" where
  "extract_topics_from_messages msgs =
     (let topics = map fst (filter (\<lambda>(topic, keywords). list_ex (\<lambda>keyword. py_in keyword (all_content msgs)) keywords)
                                   topic_keywords)
      in if topics = [] then [''General conversation''] else topics)"

record Sentiment =
  positive_score :: nat
  negative_score :: nat
  question_count :: nat
  overall_sentiment :: string
  engagement_level :: string

definition positive_words :: "string list" where
  "positive_words = [''good'', ''great'', ''excellent'', ''amazing'', ''wonderful'', ''perfect'',
     ''love'', ''like'', ''thanks'', ''thank you'', ''helpful'', ''awesome'']"

definition negative_words :: "string list" where
  "negative_words = [''bad'', ''terrible'', ''awful'', ''hate'', ''dislike'', ''problem'', ''error'',
     ''wrong'', ''fail'', ''broken'', ''sad'', ''angry'']"

definition question_words :: "string list" where
  "question_words = [''what'', ''how'', ''why'', ''when'', ''where'', ''who'', ''which'', ''?'']"

definition count_present :: "string list \<Rightarrow> string \<Rightarrow> nat" where
  "count_present ws text = length (filter (\<lambda>w. py_in w text) ws)"

text \<open>\<open>_analyze_sentiment\<close>\<close>

definition analyze_sentiment :: "Message list \<Rightarrow> Sentiment" where
  "analyze_sentiment msgs =
     (let positive_count = count_present positive_words (all_content msgs);
          negative_count = count_present negative_words (all_content msgs);
          q_count = count_present question_words (all_content msgs)
      in \<lparr>positive_score = positive_count, negative_score = negative_count,
          question_count = q_count,
          overall_sentiment =
            (if positive_count > negative_count then ''positive''
             else if negative_count > positive_count then ''negative'' else ''neutral''),
          engagement_level =
            (if q_count > 3 then ''high'' else if q_count > 1 then ''medium'' else ''low'')\<rparr>)"

text \<open>\<open>_generate_insights\<close>\<close>

definition generate_insights :: "Message list \<Rightarrow> string list \<Rightarrow> Sentiment \<Rightarrow> string list" where
  "generate_insights msgs topics sentiment =
     [if length msgs > 10 then ''Active conversation with substantial message exchange''
      else if length msgs > 5 then ''Moderate conversation activity''
      else ''Brief conversation session'']
     @ [if length topics > 3 then ''Diverse range of topics discussed''
        else if length topics > 1 then ''Multiple topics covered''
        else ''Focused on single topic'']
     @ [if overall_sentiment sentiment = ''positive'' then ''Generally positive interaction''
        else if overall_sentiment sentiment = ''negative'' then ''Some negative sentiment detected''
        else ''Neutral conversation tone'']
     @ [if engagement_level sentiment = ''high'' then ''High user engagement with many questions''
        else if engagement_level sentiment = ''medium'' then ''Moderate user engagement''
        else ''Low question engagement'']
     @ (if length msgs > 0 then
          [if timestamp (last msgs) - timestamp (hd msgs) > 3600 then ''Extended conversation session''
           else if timestamp (last msgs) - timestamp (hd msgs) > 300 then ''Sustained conversation''
           else ''Quick interaction'']
        else [])"

text \<open>
  The dictionary that \<open>analyze_conversation\<close> returns. The keys whose values are clock times
  formatted with \<open>time.strftime\<close> and the rounded duration are left out.
\<close>

record Analysis =
  has_conversation :: bool
  message :: "string option"
  total_messages :: nat
  user_messages :: nat
  assistant_messages :: nat
  topics :: "string list"
  sentiment :: "Sentiment option"
  insights :: "string list"
  recent_context :: string
  recent_messages :: "(string \<times> string) list"

definition no_analysis :: "string \<Rightarrow> Analysis" where
  "no_analysis m =
     \<lparr>has_conversation = False, message = Some m, total_messages = 0, user_messages = 0,
      assistant_messages = 0, topics = [], sentiment = None, insights = [],
      recent_context = [], recent_messages = []\<rparr>"

definition analyze_conversation :: "ConversationMemory \<Rightarrow> string \<Rightarrow> Analysis" where
  "analyze_conversation mem uid =
     (case conversations mem uid of
        None \<Rightarrow> no_analysis ''No conversation history found for this user.''
      | Some conversation \<Rightarrow>
          (let msgs = messages conversation in
           if msgs = [] then no_analysis ''No messages in conversation history.''
           else
             \<lparr>has_conversation = True, message = None,
              total_messages = length msgs,
              user_messages = length (filter (\<lambda>msg. role msg = ''user'') msgs),
              assistant_messages = length (filter (\<lambda>msg. role msg = ''assistant'') msgs),
              topics = extract_topics_from_messages msgs,
              sentiment = Some (analyze_sentiment msgs),
              insights = generate_insights msgs (extract_topics_from_messages msgs) (analyze_sentiment msgs),
              recent_context = get_context_string conversation 5,
              recent_messages =
                map (\<lambda>msg. (role msg,
                             if py_len (content msg) > 100 then py_take 100 (content msg) @ ''...''
                             else content msg))
                    (get_recent_messages conversation 5)\<rparr>))"

text \<open>The memory of an agent that holds one conversation with the single message "hello".\<close>

definition hello_message :: Message where
  "hello_message = \<lparr>role = ''user'', content = ''hello'', timestamp = 1700000000, user_id = ''u1''\<rparr>"

definition hello_memory :: ConversationMemory where
  "hello_memory = agent_memory
     [''u1'' \<mapsto> \<lparr>conv_user_id = ''u1'', messages = [hello_message],
                 created_at = 1700000000, last_updated = 1700000000\<rparr>]"

text \<open>
  A run of calls: the \<open>n\<close>-th message of user \<open>u1\<close> arrives at second \<open>n\<close>, every clock
  reading of that call being \<open>n\<close>.
\<close>

definition tick :: "nat \<Rightarrow> clock" where
  "tick n = \<lparr>t_created = real n, t_created_updated = real n, t_message = real n,
             t_updated = real n, t_cleanup = real n\<rparr>"

fun say :: "nat \<Rightarrow> ConversationMemory \<Rightarrow> ConversationMemory" where
  "say 0 mem = mem"
| "say (Suc n) mem = add_user_message (say n mem) ''u1'' ''hi'' (tick (Suc n))"

section \<open>Parsing a proposed workflow (agents/workflow\_manager.py)\<close>

text \<open>\<open>s.split(c)\<close> for a one-character separator: every piece, the empty ones too.\<close>

fun split_char :: "char \<Rightarrow> string \<Rightarrow> string list" where
  "split_char sep [] = [[]]"
| "split_char sep (c # cs) =
     (if c = sep then [] # split_char sep cs
      else (case split_char sep cs of
              [] \<Rightarrow> [[c]]
            | w # ws \<Rightarrow> (c # w) # ws))"

text \<open>
  \<open>s.split(sep, 1)\<close> for a non-empty separator: \<open>Some (before, after)\<close> at the first
  occurrence, which is the list \<open>[before, after]\<close>; \<open>None\<close> when there is none, which is the
  list \<open>[s]\<close>.
\<close>

fun split_once :: "string \<Rightarrow> string \<Rightarrow> (string \<times> string) option" where
  "split_once sep [] = None"
| "split_once sep (c # cs) =
     (if startswith (c # cs) sep then Some ([], drop (length sep) (c # cs))
      else map_option (\<lambda>(before, after). (c # before, after)) (split_once sep cs))"

text \<open>\<open>str(n)\<close> for a natural number.\<close>

fun str_nat :: "nat \<Rightarrow> string" where
  "str_nat n =
     (if n < 10 then [char_of (48 + n)]
      else str_nat (n div 10) @ [char_of (48 + n mod 10)])"

declare str_nat.simps [simp del]

definition parse_warning :: "string \<Rightarrow> string" where
  "parse_warning line =
     ''Error parsing workflow step: '' @ line @ '', error: list index out of range''"

text \<open>
  The body of the loop of \<open>_parse_ai_workflow_response\<close> for the line at index \<open>i\<close> of the
  response. A line that starts with \<open>STEP\<close> but has no colon raises \<open>IndexError\<close> at
  \<open>line.split(':', 1)[1]\<close>, which the \<open>except\<close> turns into a warning. The id of the step and
  the id it waits for are built from the index of the line.
\<close>

definition parse_step_line :: "nat \<Rightarrow> string \<Rightarrow> string \<Rightarrow> log \<times> WorkflowStep option" where
  "parse_step_line i line original_query =
     (if startswith (py_strip line) ''STEP'' then
        (case split_once '':'' line of
           None \<Rightarrow> ([parse_warning line], None)
         | Some (head, rest) \<Rightarrow>
             (case split_once '' - '' (py_strip rest) of
                None \<Rightarrow> ([], None)
              | Some (part0, part1) \<Rightarrow>
                  ([], Some \<lparr>step_id = ''step_'' @ str_nat (i + 1),
                             step_type = TOOL_EXECUTION,
                             tool_name = py_strip part0,
                             action = py_strip part1,
                             parameters = [(''query'', PyStr original_query)],
                             depends_on = (if i > 0 then Some [''step_'' @ str_nat i] else None),
                             condition = None,
                             output_variable = None\<rparr>)))
      else ([], None))"

text \<open>\<open>for i, line in enumerate(lines)\<close>, from index \<open>i\<close> on.\<close>

fun parse_lines :: "nat \<Rightarrow> string list \<Rightarrow> string \<Rightarrow> log \<times> WorkflowStep list" where
  "parse_lines i [] original_query = ([], [])"
| "parse_lines i (line # lines) original_query =
     (case parse_step_line i line original_query of
        (w, parsed) \<Rightarrow>
          (case parse_lines (i + 1) lines original_query of
             (ws, steps) \<Rightarrow>
               (w @ ws, (case parsed of None \<Rightarrow> steps | Some step \<Rightarrow> step # steps))))"

definition fallback_step :: "string \<Rightarrow> WorkflowStep" where
  "fallback_step original_query =
     \<lparr>step_id = ''fallback'', step_type = TOOL_EXECUTION, tool_name = ''WebSearch'',
      action = ''search'', parameters = [(''query'', PyStr original_query)],
      depends_on = None, condition = None, output_variable = None\<rparr>"

definition parse_ai_workflow_response :: "string \<Rightarrow> string \<Rightarrow> log \<times> WorkflowStep list" where
  "parse_ai_workflow_response response original_query =
     (case parse_lines 0 (split_char (CHR 0x0A) (py_strip response)) original_query of
        (ws, steps) \<Rightarrow> (ws, if steps \<noteq> [] then steps else [fallback_step original_query]))"

section \<open>The agent's reply (agents/intelligent\_agent.py)\<close>

text \<open>\<open>config.MAX_MESSAGE_LENGTH\<close>\<close>

definition MAX_MESSAGE_LENGTH :: nat where
  "MAX_MESSAGE_LENGTH = 4096"

text \<open>The emoji of the source, as their UTF-8 bytes.\<close>

definition smiling_face :: string where
  "smiling_face = [CHR 0xF0, CHR 0x9F, CHR 0x98, CHR 0x8A]"

definition robot_face :: string where
  "robot_face = [CHR 0xF0, CHR 0x9F, CHR 0xA4, CHR 0x96]"

definition thumbs_up :: string where
  "thumbs_up = [CHR 0xF0, CHR 0x9F, CHR 0x91, CHR 0x8D]"

definition light_bulb :: string where
  "light_bulb = [CHR 0xF0, CHR 0x9F, CHR 0x92, CHR 0xA1]"

definition magnifier :: string where
  "magnifier = [CHR 0xF0, CHR 0x9F, CHR 0x94, CHR 0x8D]"

definition books :: string where
  "books = [CHR 0xF0, CHR 0x9F, CHR 0x93, CHR 0x9A]"

definition sun_behind_cloud :: string where
  "sun_behind_cloud = [CHR 0xF0, CHR 0x9F, CHR 0x8C, CHR 0xA4, CHR 0xEF, CHR 0xB8, CHR 0x8F]"

definition friendly_emoji :: "string list" where
  "friendly_emoji =
     [smiling_face, robot_face, thumbs_up, light_bulb, magnifier, books, sun_behind_cloud]"

text \<open>\<open>_format_response\<close>\<close>

definition format_response :: "string \<Rightarrow> string" where
  "format_response response =
     (let cut = (if py_len response > MAX_MESSAGE_LENGTH - 100
                 then py_take (MAX_MESSAGE_LENGTH - 100) response @ ''...''
                 else response);
          cleaned = py_strip cut
      in if \<not> list_ex (\<lambda>emoji. py_in emoji cleaned) friendly_emoji
         then cleaned @ '' '' @ smiling_face
         else cleaned)"

text \<open>The fixed replies.\<close>

definition reply_no_message :: string where
  "reply_no_message =
     ''I didn'' @ [CHR 0x27]
     @ ''t receive any message. Could you please send me somethin'' @ ''g? ''
     @ [CHR 0xF0, CHR 0x9F, CHR 0x98, CHR 0x8A]"

definition reply_empty_result :: string where
  "reply_empty_result =
     ''I'' @ [CHR 0x27]
     @ ''m having trouble generating a response. Could you please''
     @ '' try rephrasing your question? ''
     @ [CHR 0xF0, CHR 0x9F, CHR 0xA4, CHR 0x96]"

definition reply_processing_error :: string where
  "reply_processing_error =
     ''Sorry, I encountered an error processing your message. P''
     @ ''lease try again! '' @ [CHR 0xF0, CHR 0x9F, CHR 0xA4, CHR 0x96]"

definition reply_rephrase :: string where
  "reply_rephrase =
     ''I understand you'' @ [CHR 0x27] @ ''re asking about something, but I''
     @ [CHR 0x27] @ ''m having trouble formulating a proper response. Could yo''
     @ ''u please rephrase your question? ''
     @ [CHR 0xF0, CHR 0x9F, CHR 0x98, CHR 0x8A]"

definition reply_no_response :: string where
  "reply_no_response =
     ''I'' @ [CHR 0x27]
     @ ''m having trouble generating a response right now. Please''
     @ '' try again! '' @ [CHR 0xF0, CHR 0x9F, CHR 0xA4, CHR 0x96]"

definition reply_technical :: string where
  "reply_technical =
     ''I'' @ [CHR 0x27]
     @ ''m experiencing some technical difficulties. Please try a''
     @ ''gain in a moment! '' @ [CHR 0xF0, CHR 0x9F, CHR 0x94, CHR 0xA7]"

definition quota_advice :: string where
  "quota_advice =
     [CHR 0xF0, CHR 0x9F, CHR 0x92, CHR 0xA1] @ '' **Suggestions:**''
     @ [CHR 0x0A, CHR 0xE2, CHR 0x80, CHR 0xA2]
     @ '' Try asking for specific information like weather, defin''
     @ ''itions, or web searches'' @ [CHR 0x0A, CHR 0xE2, CHR 0x80, CHR 0xA2]
     @ '' Use commands like '' @ [CHR 0x27] @ ''define '' @ [CHR 0x5B] @ ''word''
     @ [CHR 0x5D, CHR 0x27] @ '' or '' @ [CHR 0x27] @ ''weather in '' @ [CHR 0x5B]
     @ ''city'' @ [CHR 0x5D, CHR 0x27, CHR 0x0A, CHR 0xE2, CHR 0x80, CHR 0xA2]
     @ '' Ask me to search for specific information''
     @ [CHR 0x0A, CHR 0x0A, CHR 0xF0, CHR 0x9F, CHR 0x94, CHR 0xA7]
     @ '' **Current Status:**'' @ [CHR 0x0A, CHR 0xE2, CHR 0x80, CHR 0xA2]
     @ '' API quota has been reached for today''
     @ [CHR 0x0A, CHR 0xE2, CHR 0x80, CHR 0xA2]
     @ '' Tool-based queries (weather, dictionary, search) still '' @ ''work''
     @ [CHR 0x0A, CHR 0xE2, CHR 0x80, CHR 0xA2]
     @ '' Enhanced analysis will be available when quota resets''
     @ [CHR 0x0A, CHR 0x0A, CHR 0xF0, CHR 0x9F, CHR 0x93, CHR 0x8B]
     @ '' **Available Commands:**'' @ [CHR 0x0A, CHR 0xE2, CHR 0x80, CHR 0xA2]
     @ '' '' @ [CHR 0x60] @ ''/help'' @ [CHR 0x60] @ '' - Show available features''
     @ [CHR 0x0A, CHR 0xE2, CHR 0x80, CHR 0xA2] @ '' '' @ [CHR 0x60] @ ''/stats''
     @ [CHR 0x60] @ '' - View conversation statistics''
     @ [CHR 0x0A, CHR 0xE2, CHR 0x80, CHR 0xA2] @ '' '' @ [CHR 0x60] @ ''/clear''
     @ [CHR 0x60] @ '' - Clear conversation history''"

text \<open>\<open>_format_general_quota_exceeded_response\<close>\<close>

definition format_general_quota_exceeded_response :: "string \<Rightarrow> string" where
  "format_general_quota_exceeded_response query =
     (''I understand you'' @ [CHR 0x27] @ ''re asking about: '') @ query @ [CHR 0x0A, CHR 0x0A] @ quota_advice"

text \<open>
  What a reply depends on from outside: whether the quota monitor allows a request, the
  rendered conversation context of the user (empty without a user id or a history), the system
  prompt, and the language model, which raises or returns a response whose text may be
  missing.
\<close>

record agent_env =
  quota_available :: bool
  conversation_context :: string
  system_prompt :: string
  generate_content :: "string \<Rightarrow> py_error + string option"

definition conversation_prompt :: "agent_env \<Rightarrow> string \<Rightarrow> string" where
  "conversation_prompt env query =
     system_prompt env
     @ (if conversation_context env \<noteq> []
        then [CHR 0x0A, CHR 0x0A] @ ''Previous conversation:'' @ [CHR 0x0A]
             @ conversation_context env @ [CHR 0x0A]
        else [])
     @ [CHR 0x0A] @ ''User: '' @ query @ [CHR 0x0A] @ ''Assistant:''"

text \<open>\<open>_handle_general_query\<close>, with its \<open>try\<close>/\<open>except\<close> around the model call.\<close>

definition handle_general_query :: "agent_env \<Rightarrow> string \<Rightarrow> string" where
  "handle_general_query env query =
     (if \<not> quota_available env then format_general_quota_exceeded_response query
      else
        (case generate_content env (conversation_prompt env query) of
           Inl e \<Rightarrow>
             (let error_msg = py_lower (str_of_error e) in
              if py_in ''quota'' error_msg \<or> py_in ''429'' error_msg \<or> py_in ''exceeded'' error_msg
              then format_general_quota_exceeded_response query
              else reply_technical)
         | Inr None \<Rightarrow> reply_no_response
         | Inr (Some txt) \<Rightarrow>
             if txt = [] then reply_no_response
             else
               (let formatted_response = format_response txt in
                if py_strip formatted_response \<noteq> []
                   \<and> py_lower (py_strip formatted_response) \<noteq> py_lower query
                then formatted_response
                else reply_rephrase)))"

text \<open>
  \<open>process_message\<close>, as far as the returned string goes. \<open>handle\<close> is the branch that
  produces \<open>result\<close> from the cleaned message (memory query, e-mail, workflow, tool or general
  query): it returns a string, returns nothing, or raises, and the outer \<open>except\<close> answers a
  raise with a fixed reply.
\<close>

definition process_message ::
  "agent_env \<Rightarrow> (string \<Rightarrow> py_error + string option) \<Rightarrow> string \<Rightarrow> string" where
  "process_message env handle user_message =
     (if user_message = [] \<or> py_strip user_message = [] then reply_no_message
      else
        (let cleaned_message = py_strip user_message in
         case handle cleaned_message of
           Inl e \<Rightarrow> reply_processing_error
         | Inr None \<Rightarrow> reply_empty_result
         | Inr (Some result) \<Rightarrow>
             if result = [] \<or> py_strip result = [] then reply_empty_result
             else if py_lower (py_strip result) = py_lower cleaned_message
             then handle_general_query env (''Please help me understand: '' @ cleaned_message)
             else result))"

section \<open>Concrete model responses\<close>

text \<open>
  Two answers of the language model to the prompt of \<open>_create_custom_workflow\<close>: one with an
  introducing line before the steps, one with an empty line between the steps.
\<close>

definition plan_response :: string where
  "plan_response =
     ''Here is the plan:'' @ [CHR 0x0A]
     @ ''STEP 1: Weather - check the weather in Paris'' @ [CHR 0x0A]
     @ ''STEP 2: Gmail - send the forecast to the team''"

definition spaced_response :: string where
  "spaced_response =
     ''STEP 1: Weather - check the weather in Paris'' @ [CHR 0x0A] @ [CHR 0x0A]
     @ ''STEP 2: Gmail - send the forecast to the team''"

text \<open>
  A language model that answers every prompt with a greeting that ends in the smiling face,
  and a handling branch whose result is the lowercased cleaned message.
\<close>

definition parrot_env :: agent_env where
  "parrot_env =
     \<lparr>quota_available = True, conversation_context = [],
      system_prompt = ''You are ModuMentor, an intelligent assistant.'',
      generate_content = (\<lambda>prompt. Inr (Some (''hi '' @ smiling_face)))\<rparr>"

definition echo_path :: "string \<Rightarrow> py_error + string option" where
  "echo_path cleaned_message = Inr (Some (py_lower cleaned_message))"

section \<open>The sort loop never raises and splits the remaining list by readiness\<close>

lemma filter_remove1_sat:
  "P y \<Longrightarrow> filter P (remove1 y xs) = remove1 y (filter P xs)"
  by (induction xs) auto

lemma filter_remove1_unsat:
  "P y \<Longrightarrow> filter (\<lambda>x. \<not> P x) (remove1 y xs) = filter (\<lambda>x. \<not> P x) xs"
  by (induction xs) auto

lemma remove_all_filter_gen:
  "\<forall>y \<in> set ys. P y \<Longrightarrow> mset ys = mset (filter P xs) \<Longrightarrow>
     remove_all ys xs = Inr (filter (\<lambda>x. \<not> P x) xs)"
proof (induction ys arbitrary: xs)
  case Nil
  then have "filter P xs = []" by simp
  then have "filter (\<lambda>x. \<not> P x) xs = xs"
    by (induction xs) (auto split: if_splits)
  then show ?case by simp
next
  case (Cons y ys)
  have Py: "P y" using Cons.prems(1) by simp
  have "y \<in># mset (filter P xs)" using Cons.prems(2) by (metis list.set_intros(1) set_mset_mset)
  then have yin: "y \<in> set xs" by simp
  have "mset ys = mset (filter P xs) - {#y#}"
    using Cons.prems(2) by (metis add_mset_remove_trivial mset.simps(2))
  also have "\<dots> = mset (remove1 y (filter P xs))" by simp
  also have "\<dots> = mset (filter P (remove1 y xs))" using Py by (simp add: filter_remove1_sat)
  finally have m: "mset ys = mset (filter P (remove1 y xs))" .
  have "remove_all ys (remove1 y xs) = Inr (filter (\<lambda>x. \<not> P x) (remove1 y xs))"
    using Cons.IH [OF _ m] Cons.prems(1) by simp
  then show ?case
    using yin Py by (simp add: py_remove_def filter_remove1_unsat)
qed

lemma remove_all_ready:
  "remove_all (filter P xs) xs = Inr (filter (\<lambda>x. \<not> P x) xs)"
  by (rule remove_all_filter_gen) auto

lemma sort_loop_unfold:
  "sort_loop sorted_steps remaining_steps =
     (if remaining_steps = [] then Inr (sorted_steps, [])
      else if filter (is_ready sorted_steps) remaining_steps = []
      then Inr (sorted_steps @ remaining_steps, [circular_warning])
      else sort_loop (sorted_steps @ filter (is_ready sorted_steps) remaining_steps)
             (filter (\<lambda>s. \<not> is_ready sorted_steps s) remaining_steps))"
  by (subst sort_loop.simps) (simp add: remove_all_ready)

lemma sort_loop_mset:
  "\<exists>out w. sort_loop sorted_steps remaining_steps = Inr (out, w)
     \<and> mset out = mset sorted_steps + mset remaining_steps"
proof (induction remaining_steps arbitrary: sorted_steps rule: length_induct)
  case (1 remaining_steps)
  show ?case
  proof (cases "remaining_steps = [] \<or> filter (is_ready sorted_steps) remaining_steps = []")
    case True
    then show ?thesis by (subst sort_loop_unfold) auto
  next
    case False
    let ?ready = "filter (is_ready sorted_steps) remaining_steps"
    let ?rest = "filter (\<lambda>s. \<not> is_ready sorted_steps s) remaining_steps"
    have split: "mset ?ready + mset ?rest = mset remaining_steps"
      by (metis mset_filter multiset_partition)
    have "length ?ready + length ?rest = length remaining_steps"
      by (metis split size_mset size_union)
    moreover have "0 < length ?ready" using False by simp
    ultimately have "length ?rest < length remaining_steps" by linarith
    with 1 obtain out w where
      "sort_loop (sorted_steps @ ?ready) ?rest = Inr (out, w)"
      "mset out = mset (sorted_steps @ ?ready) + mset ?rest"
      by blast
    with False split show ?thesis
      by (subst sort_loop_unfold) (auto simp: add.assoc)
  qed
qed

section \<open>Progress and order of the sort loop\<close>

lemma is_ready_deps: "is_ready sorted_steps s \<longleftrightarrow> set (deps_of s) \<subseteq> set (map step_id sorted_steps)"
  by (auto simp: is_ready_def deps_of_def list_all_iff split: option.splits)

lemma finite_dep_rel: "finite (dep_rel steps)"
  by (simp add: dep_rel_def)

lemma dep_rel_mono: "set xs \<subseteq> set ys \<Longrightarrow> dep_rel xs \<subseteq> dep_rel ys"
  by (auto simp: dep_rel_def)

lemma ready_exists:
  assumes ne: "remaining \<noteq> []"
    and ac: "acyclic (dep_rel remaining)"
    and pres: "\<forall>s \<in> set remaining. set (deps_of s) \<subseteq> set (map step_id sorted_steps) \<union> set (map step_id remaining)"
  shows "filter (is_ready sorted_steps) remaining \<noteq> []"
proof
  assume empty: "filter (is_ready sorted_steps) remaining = []"
  have wf: "wf (dep_rel remaining)"
    using finite_dep_rel ac by (rule finite_acyclic_wf)
  from ne obtain s0 where "s0 \<in> set remaining" by (cases remaining) auto
  then have "step_id s0 \<in> step_id ` set remaining" by simp
  with wf obtain z where zin: "z \<in> step_id ` set remaining"
    and zmin: "\<And>y. (y, z) \<in> dep_rel remaining \<Longrightarrow> y \<notin> step_id ` set remaining"
    by (rule wfE_min) blast
  from zin obtain s where s: "s \<in> set remaining" "z = step_id s" by auto
  from empty s have "\<not> is_ready sorted_steps s" by (auto simp: filter_empty_conv)
  then obtain d where d: "d \<in> set (deps_of s)" "d \<notin> set (map step_id sorted_steps)"
    by (auto simp: is_ready_deps)
  with pres s have "d \<in> step_id ` set remaining" by auto
  moreover have "(d, z) \<in> dep_rel remaining" using s d by (auto simp: dep_rel_def)
  ultimately show False using zmin by blast
qed

lemma sort_loop_no_warning:
  assumes "acyclic (dep_rel remaining)"
    and "\<forall>s \<in> set remaining. set (deps_of s) \<subseteq> set (map step_id sorted_steps) \<union> set (map step_id remaining)"
  shows "\<exists>out. sort_loop sorted_steps remaining = Inr (out, [])"
  using assms
proof (induction remaining arbitrary: sorted_steps rule: length_induct)
  case (1 remaining)
  show ?case
  proof (cases "remaining = []")
    case True
    then show ?thesis by (subst sort_loop_unfold) simp
  next
    case False
    let ?ready = "filter (is_ready sorted_steps) remaining"
    let ?rest = "filter (\<lambda>s. \<not> is_ready sorted_steps s) remaining"
    have rne: "?ready \<noteq> []" using False "1.prems" by (rule ready_exists)
    have "length ?ready + length ?rest = length remaining"
      by (rule sum_length_filter_compl)
    with rne have less: "length ?rest < length remaining" by (cases ?ready) auto
    have ac: "acyclic (dep_rel ?rest)"
      by (rule acyclic_subset [OF "1.prems"(1)]) (rule dep_rel_mono, auto)
    have pres: "\<forall>s \<in> set ?rest. set (deps_of s) \<subseteq> set (map step_id (sorted_steps @ ?ready)) \<union> set (map step_id ?rest)"
    proof
      fix s assume s: "s \<in> set ?rest"
      have part: "set remaining = set ?ready \<union> set ?rest" by auto
      from s have "s \<in> set remaining" by simp
      with "1.prems"(2) have "set (deps_of s) \<subseteq> set (map step_id sorted_steps) \<union> set (map step_id remaining)"
        by blast
      also have "\<dots> = set (map step_id (sorted_steps @ ?ready)) \<union> set (map step_id ?rest)"
        unfolding set_map set_append part by blast
      finally show "set (deps_of s) \<subseteq> set (map step_id (sorted_steps @ ?ready)) \<union> set (map step_id ?rest)" .
    qed
    from "1.IH" less ac pres obtain out where
      "sort_loop (sorted_steps @ ?ready) ?rest = Inr (out, [])" by blast
    with False rne show ?thesis by (subst sort_loop_unfold) simp
  qed
qed

lemma deps_first_append:
  assumes "deps_first xs" and "\<forall>s \<in> set ys. set (deps_of s) \<subseteq> step_id ` set xs"
  shows "deps_first (xs @ ys)"
  unfolding deps_first_def
proof (intro allI impI)
  fix i assume i: "i < length (xs @ ys)"
  show "set (deps_of ((xs @ ys) ! i)) \<subseteq> step_id ` set (take i (xs @ ys))"
  proof (cases "i < length xs")
    case True
    with assms(1) show ?thesis by (simp add: deps_first_def nth_append)
  next
    case False
    with i have "(xs @ ys) ! i \<in> set ys" by (simp add: nth_append)
    with assms(2) have "set (deps_of ((xs @ ys) ! i)) \<subseteq> step_id ` set xs" by blast
    moreover have "set xs \<subseteq> set (take i (xs @ ys))" using False by simp
    ultimately show ?thesis by blast
  qed
qed

lemma sort_loop_deps_first:
  "deps_first sorted_steps \<Longrightarrow> sort_loop sorted_steps remaining = Inr (out, []) \<Longrightarrow> deps_first out"
proof (induction remaining arbitrary: sorted_steps rule: length_induct)
  case (1 remaining)
  show ?case
  proof (cases "remaining = []")
    case True
    with "1.prems" show ?thesis by (subst (asm) sort_loop_unfold) simp
  next
    case False
    let ?ready = "filter (is_ready sorted_steps) remaining"
    let ?rest = "filter (\<lambda>s. \<not> is_ready sorted_steps s) remaining"
    from "1.prems"(2) False have rne: "?ready \<noteq> []"
      by (subst (asm) sort_loop_unfold) (auto split: if_splits)
    with "1.prems"(2) False have rec: "sort_loop (sorted_steps @ ?ready) ?rest = Inr (out, [])"
      by (subst (asm) sort_loop_unfold) simp
    have "length ?ready + length ?rest = length remaining"
      by (rule sum_length_filter_compl)
    with rne have less: "length ?rest < length remaining" by (cases ?ready) auto
    have "deps_first (sorted_steps @ ?ready)"
      using "1.prems"(1) by (rule deps_first_append) (auto simp: is_ready_deps)
    with "1.IH" less rec show ?thesis by blast
  qed
qed

lemma deps_first_nth:
  assumes "deps_first out" and "i < length out" and "d \<in> set (deps_of (out ! i))"
  shows "\<exists>j<i. step_id (out ! j) = d"
proof -
  from assms have "d \<in> step_id ` set (take i out)" by (auto simp: deps_first_def)
  then obtain x where x: "x \<in> set (take i out)" "d = step_id x" by blast
  then obtain k where "k < length (take i out)" "take i out ! k = x"
    by (auto simp: in_set_conv_nth)
  with x assms(2) show ?thesis by (intro exI [of _ k]) simp
qed

lemma distinct_ids_pos:
  assumes "distinct (map step_id out)" and "i < length out"
  shows "length (takeWhile (\<lambda>s. step_id s \<noteq> step_id (out ! i)) out) = i"
proof -
  have "takeWhile (\<lambda>s. step_id s \<noteq> step_id (out ! i)) out = take i out"
  proof (rule takeWhile_eq_take_P_nth)
    fix k assume "k < i" "k < length out"
    with assms show "step_id (out ! k) \<noteq> step_id (out ! i)"
      using nth_eq_iff_index_eq [of "map step_id out" k i] by simp
  qed simp
  with assms(2) show ?thesis by simp
qed

lemma deps_first_wellformed:
  assumes df: "deps_first out" and dist: "distinct (map step_id out)"
  shows "acyclic (dep_rel out)" and "deps_present out"
proof -
  let ?f = "\<lambda>a. length (takeWhile (\<lambda>s. step_id s \<noteq> a) out)"
  have "acyclic ((dep_rel out)\<inverse>)"
  proof (rule acyclicI_order [where f = ?f])
    fix a b assume "(a, b) \<in> (dep_rel out)\<inverse>"
    then obtain s where s: "s \<in> set out" "a = step_id s" "b \<in> set (deps_of s)"
      by (auto simp: dep_rel_def)
    then obtain i where i: "i < length out" "out ! i = s" by (auto simp: in_set_conv_nth)
    with s df obtain j where j: "j < i" "step_id (out ! j) = b"
      using deps_first_nth by blast
    have "?f a = i" using distinct_ids_pos [OF dist i(1)] i s by simp
    moreover have "?f b = j" using distinct_ids_pos [OF dist, of j] i j by simp
    ultimately show "?f b < ?f a" using j by simp
  qed
  then show "acyclic (dep_rel out)" by simp
  show "deps_present out"
    unfolding deps_present_def list_all_iff
  proof (intro ballI)
    fix s d assume "s \<in> set out" "d \<in> set (deps_of s)"
    then obtain i where i: "i < length out" "out ! i = s" by (auto simp: in_set_conv_nth)
    with df \<open>d \<in> set (deps_of s)\<close> obtain j where "j < i" "step_id (out ! j) = d"
      using deps_first_nth by blast
    with i have "out ! j \<in> set out" by simp
    with \<open>step_id (out ! j) = d\<close> show "d \<in> set (map step_id out)" by force
  qed
qed

lemma dep_rel_set: "set xs = set ys \<Longrightarrow> dep_rel xs = dep_rel ys"
  by (simp add: dep_rel_def)

lemma deps_present_set: "set xs = set ys \<Longrightarrow> deps_present xs = deps_present ys"
  by (simp add: deps_present_def list_all_iff)

lemma deps_first_empty: "deps_first []"
  by (simp add: deps_first_def)

lemma sort_steps_result:
  "\<exists>out w. sort_steps_by_dependencies steps = Inr (out, w) \<and> mset out = mset steps"
  using sort_loop_mset [of "[]" steps] by (simp add: sort_steps_by_dependencies_def)

lemma sort_log_cases:
  "sort_loop sorted_steps remaining = Inr (out, w) \<Longrightarrow> w = [] \<or> w = [circular_warning]"
proof (induction remaining arbitrary: sorted_steps rule: length_induct)
  case (1 remaining)
  show ?case
  proof (cases "remaining = [] \<or> filter (is_ready sorted_steps) remaining = []")
    case True
    with "1.prems" show ?thesis
      by (subst (asm) sort_loop_unfold) (auto simp: circular_warning_def split: if_splits)
  next
    case False
    let ?ready = "filter (is_ready sorted_steps) remaining"
    let ?rest = "filter (\<lambda>s. \<not> is_ready sorted_steps s) remaining"
    from "1.prems" False have rec: "sort_loop (sorted_steps @ ?ready) ?rest = Inr (out, w)"
      by (subst (asm) sort_loop_unfold) simp
    have "length ?ready + length ?rest = length remaining"
      by (rule sum_length_filter_compl)
    with False have less: "length ?rest < length remaining" by (cases ?ready) auto
    with "1.IH" rec show ?thesis by blast
  qed
qed

lemma no_warning_wellformed:
  assumes dist: "distinct (map step_id steps)"
    and res: "sort_steps_by_dependencies steps = Inr (out, [])"
  shows "acyclic (dep_rel steps) \<and> deps_present steps"
proof -
  from sort_steps_result [of steps] res have m: "mset out = mset steps" by auto
  then have seteq: "set out = set steps" by (rule mset_eq_setD)
  from m have "mset (map step_id out) = mset (map step_id steps)" by simp
  with dist have d': "distinct (map step_id out)" by (metis mset_eq_imp_distinct_iff)
  from res have "deps_first out"
    unfolding sort_steps_by_dependencies_def by (rule sort_loop_deps_first [OF deps_first_empty])
  from deps_first_wellformed [OF this d'] show ?thesis
    using dep_rel_set [OF seteq] deps_present_set [OF seteq] by simp
qed

lemma acyclic_no_edges: "acyclic {}"
  by (simp add: acyclic_def)

section \<open>Facts about tool selection\<close>

lemma collect_suitable_returns:
  "\<forall>t \<in> set tools. \<exists>b. can_handle t query = Inr b \<Longrightarrow>
     collect_suitable tools query = Inr (filter (\<lambda>t. can_handle t query = Inr True) tools)"
  by (induction tools) auto

lemma collect_suitable_subset:
  "collect_suitable tools query = Inr suitable \<Longrightarrow> set suitable \<subseteq> set tools"
  by (induction tools arbitrary: suitable) (auto split: sum.splits if_splits)

lemma collect_suitable_raises:
  "\<forall>u \<in> set pre. \<exists>b. can_handle u query = Inr b \<Longrightarrow> can_handle t query = Inl e \<Longrightarrow>
     collect_suitable (pre @ t # post) query = Inl e"
  by (induction pre) auto

lemma first_by_priority_member:
  "first_by_priority ns suitable = Some t \<Longrightarrow> t \<in> set suitable"
  by (induction ns) (auto split: option.splits simp: find_Some_iff)

lemma find_web_search:
  "''WebSearch'' \<in> set (map name tools) \<Longrightarrow> \<exists>t \<in> set tools. find (\<lambda>t. name t = ''WebSearch'') tools = Some t"
  by (induction tools) auto

lemma select_tool_None:
  "snd (select_tool tools query) = Inr None \<Longrightarrow> find (\<lambda>t. name t = ''WebSearch'') tools = None"
  by (auto simp: select_tool_def split: sum.splits option.splits if_splits)

section \<open>The loop over the run order\<close>

lemma repr_of_ids:
  "py_repr_list [''a''] = [CHR 0x5B, CHR 0x27] @ ''a'' @ [CHR 0x27, CHR 0x5D]"
  "py_repr_list [''b''] = [CHR 0x5B, CHR 0x27] @ ''b'' @ [CHR 0x27, CHR 0x5D]"
  "py_repr_list [''step_1''] = [CHR 0x5B, CHR 0x27] @ ''step_1'' @ [CHR 0x27, CHR 0x5D]"
  "py_repr_list [''step_2''] = [CHR 0x5B, CHR 0x27] @ ''step_2'' @ [CHR 0x27, CHR 0x5D]"
  by code_simp+

lemma run_steps_append:
  "run_steps tools env (xs @ ys) st = run_steps tools env ys (run_steps tools env xs st)"
  by (induction xs arbitrary: st) auto

lemma run_one_raise:
  "missing_deps step (st_results st) = [] \<Longrightarrow> execute_step tools env step (st_results st) = Inl e \<Longrightarrow>
     run_one tools env step st = st\<lparr>st_errors := st_errors st @ [step_error_message step e]\<rparr>"
  by (simp add: run_one_def)

lemma run_one_errors: "\<exists>more. st_errors (run_one tools env step st) = st_errors st @ more"
  by (simp add: run_one_def split: sum.splits)

lemma run_steps_errors: "\<exists>more. st_errors (run_steps tools env xs st) = st_errors st @ more"
proof (induction xs arbitrary: st)
  case Nil
  then show ?case by simp
next
  case (Cons x xs)
  from run_one_errors [of tools env x st] obtain m1 where
    "st_errors (run_one tools env x st) = st_errors st @ m1" by blast
  moreover from Cons [of "run_one tools env x st"] obtain m2 where
    "st_errors (run_steps tools env xs (run_one tools env x st)) = st_errors (run_one tools env x st) @ m2"
    by blast
  ultimately show ?case by simp
qed

lemma run_one_other_key:
  "step_id step \<noteq> k \<Longrightarrow> output_variable step \<noteq> Some k \<Longrightarrow>
     st_results (run_one tools env step st) k = st_results st k"
  by (auto simp: run_one_def split: sum.splits option.splits)

lemma run_steps_other_key:
  "\<forall>t \<in> set xs. step_id t \<noteq> k \<and> output_variable t \<noteq> Some k \<Longrightarrow>
     st_results (run_steps tools env xs st) k = st_results st k"
  by (induction xs arbitrary: st) (auto simp: run_one_other_key)

lemma execute_workflow_fields:
  assumes "sort_steps_by_dependencies steps = Inr (run_order, w)"
  shows "results (fst (execute_workflow tools env steps))
           = st_results (run_steps tools env run_order initial_state)"
    and "set (st_errors (run_steps tools env run_order initial_state))
           \<subseteq> set (errors (fst (execute_workflow tools env steps)))"
    and "success (fst (execute_workflow tools env steps))
           \<longleftrightarrow> errors (fst (execute_workflow tools env steps)) = []"
  using assms by (auto simp: execute_workflow_def Let_def split: sum.splits)

section \<open>Analysis of the greeting\<close>

lemma lower_hello: "py_lower ''hello'' = ''hello''"
  by (simp add: py_lower_def lower_char_def)

lemma topics_hello: "content m = ''hello'' \<Longrightarrow> extract_topics_from_messages [m] = [''General'']"
  by (simp add: extract_topics_from_messages_def all_content_def lower_hello topic_keywords_def)

lemma sentiment_hello:
  "content m = ''hello'' \<Longrightarrow> analyze_sentiment [m] =
     \<lparr>positive_score = 0, negative_score = 0, question_count = 0,
      overall_sentiment = ''neutral'', engagement_level = ''low''\<rparr>"
  by (simp add: analyze_sentiment_def all_content_def lower_hello count_present_def
        positive_words_def negative_words_def question_words_def)

lemma insights_hello:
  "content m = ''hello'' \<Longrightarrow>
     generate_insights [m] [''General'']
       \<lparr>positive_score = 0, negative_score = 0, question_count = 0,
        overall_sentiment = ''neutral'', engagement_level = ''low''\<rparr>
     = [''Brief conversation session'', ''Focused on single topic'', ''Neutral conversation tone'',
        ''Low question engagement'', ''Quick interaction'']"
  by (simp add: generate_insights_def)

section \<open>Trimming and pruning a conversation\<close>

lemma filter_sorted_suffix:
  "sorted (map f xs) \<Longrightarrow> \<exists>j. filter (\<lambda>x. f x > (c::real)) xs = drop j xs"
proof (induction xs)
  case Nil
  then show ?case by simp
next
  case (Cons x xs)
  show ?case
  proof (cases "f x > c")
    case True
    with Cons.prems have "\<forall>y \<in> set (x # xs). f y > c" by fastforce
    then have "filter (\<lambda>x. f x > c) (x # xs) = drop 0 (x # xs)" by simp
    then show ?thesis by blast
  next
    case False
    from Cons obtain j where "filter (\<lambda>x. f x > c) xs = drop j xs" by auto
    with False have "filter (\<lambda>x. f x > c) (x # xs) = drop (Suc j) (x # xs)" by simp
    then show ?thesis by blast
  qed
qed

lemma trim_to_cap:
  assumes "0 < cap"
  shows "(if int (length xs) > cap then py_slice_last cap xs else xs) = drop (length xs - nat cap) xs"
  using assms by (auto simp: py_slice_last_def)

lemma messages_after_add:
  assumes "xs = messages (get_or_create_conversation mem uid clk)
                  @ [\<lparr>role = r, content = body, timestamp = t_message clk,
                       user_id = conv_user_id (get_or_create_conversation mem uid clk)\<rparr>]"
  shows "messages (the (conversations (add_role_message r mem uid body clk) uid))
     = filter (\<lambda>msg. timestamp msg > t_cleanup clk - 86400)
         (if int (length xs) > max_messages_per_conversation mem
          then py_slice_last (max_messages_per_conversation mem) xs else xs)"
  unfolding assms
  by (simp add: add_role_message_def cleanup_conversation_def clear_old_messages_def add_message_def)

section \<open>Parsing the two responses\<close>

lemma str_nat_small:
  "str_nat (Suc 0) = ''1''" "str_nat (Suc (Suc 0)) = ''2''" "str_nat (Suc (Suc (Suc 0))) = ''3''"
  by code_simp+

lemma plan_lines:
  "split_char (CHR 0x0A) (py_strip plan_response)
     = [''Here is the plan:'', ''STEP 1: Weather - check the weather in Paris'',
        ''STEP 2: Gmail - send the forecast to the team'']"
  by code_simp

lemma spaced_lines:
  "split_char (CHR 0x0A) (py_strip spaced_response)
     = [''STEP 1: Weather - check the weather in Paris'', [],
        ''STEP 2: Gmail - send the forecast to the team'']"
  by code_simp

lemma plan_parse:
  "parse_lines 0 [''Here is the plan:'', ''STEP 1: Weather - check the weather in Paris'',
        ''STEP 2: Gmail - send the forecast to the team''] q
   = ([], [\<lparr>step_id = ''step_2'', step_type = TOOL_EXECUTION, tool_name = ''Weather'',
             action = ''check the weather in Paris'', parameters = [(''query'', PyStr q)],
             depends_on = Some [''step_1''], condition = None, output_variable = None\<rparr>,
           \<lparr>step_id = ''step_3'', step_type = TOOL_EXECUTION, tool_name = ''Gmail'',
             action = ''send the forecast to the team'', parameters = [(''query'', PyStr q)],
             depends_on = Some [''step_2''], condition = None, output_variable = None\<rparr>])"
  by code_simp

lemma spaced_parse:
  "parse_lines 0 [''STEP 1: Weather - check the weather in Paris'', [],
        ''STEP 2: Gmail - send the forecast to the team''] q
   = ([], [\<lparr>step_id = ''step_1'', step_type = TOOL_EXECUTION, tool_name = ''Weather'',
             action = ''check the weather in Paris'', parameters = [(''query'', PyStr q)],
             depends_on = None, condition = None, output_variable = None\<rparr>,
           \<lparr>step_id = ''step_3'', step_type = TOOL_EXECUTION, tool_name = ''Gmail'',
             action = ''send the forecast to the team'', parameters = [(''query'', PyStr q)],
             depends_on = Some [''step_2''], condition = None, output_variable = None\<rparr>])"
  by code_simp

lemma no_step_parsed_gives_fallback:
  "snd (parse_lines 0 (split_char (CHR 0x0A) (py_strip response)) q) = [] \<Longrightarrow>
     snd (parse_ai_workflow_response response q) = [fallback_step q]"
  by (auto simp: parse_ai_workflow_response_def split: prod.splits)

lemma parsed_plan_never_runs:
  "snd (execute_workflow declining_tools quiet_env
          (snd (parse_ai_workflow_response plan_response ''weather then mail'')))
     = [circular_warning]
   \<and> steps_completed (fst (execute_workflow declining_tools quiet_env
          (snd (parse_ai_workflow_response plan_response ''weather then mail'')))) = 0
   \<and> errors (fst (execute_workflow declining_tools quiet_env
          (snd (parse_ai_workflow_response plan_response ''weather then mail''))))
     = [''Missing dependencies for step step_2: '' @ [CHR 0x5B, CHR 0x27] @ ''step_1'' @ [CHR 0x27, CHR 0x5D],
        ''Missing dependencies for step step_3: '' @ [CHR 0x5B, CHR 0x27] @ ''step_2'' @ [CHR 0x27, CHR 0x5D]]"
  unfolding parse_ai_workflow_response_def plan_lines plan_parse
  by (simp add: execute_workflow_def sort_steps_by_dependencies_def sort_loop.simps is_ready_def
        circular_warning_def Let_def quiet_env_def run_one_def missing_deps_def initial_state_def
        repr_of_ids)

section \<open>Claims\<close>

text \<open>
  C10. For every list of workflow steps, also with cyclic or dangling \<open>depends_on\<close>
  references, \<open>_sort_steps_by_dependencies\<close> returns (no \<open>list.remove\<close> raises) and the run
  order is a permutation of the input: each step occurrence appears exactly once.
\<close>

theorem sort_steps_permutation:
  "\<exists>run_order w. sort_steps_by_dependencies steps = Inr (run_order, w)
     \<and> mset run_order = mset steps"
  using sort_loop_mset [of "[]" steps] by (simp add: sort_steps_by_dependencies_def)

text \<open>
  C2. For every list of workflow steps whose dependency graph is acyclic and whose
  \<open>depends_on\<close> entries all name ids of steps of the list, the sort takes no fallback
  branch (no warning) and, in the run order it returns, every dependency of a step is the id
  of a step at an earlier position. With the step ids of the workflow pairwise distinct, as
  the data model has them, this says: no step is placed before a step listed in its
  \<open>depends_on\<close>.
\<close>

theorem run_order_respects_dependencies:
  assumes "acyclic (dep_rel steps)" and "deps_present steps"
  shows "\<exists>run_order. sort_steps_by_dependencies steps = Inr (run_order, [])
     \<and> mset run_order = mset steps
     \<and> (\<forall>i < length run_order. \<forall>d \<in> set (deps_of (run_order ! i)). \<exists>j<i. step_id (run_order ! j) = d)
     \<and> (distinct (map step_id steps) \<longrightarrow>
          (\<forall>i j. i < length run_order \<and> j < length run_order
             \<and> step_id (run_order ! j) \<in> set (deps_of (run_order ! i)) \<longrightarrow> j < i))"
proof -
  have pres: "\<forall>s \<in> set steps. set (deps_of s) \<subseteq> set (map step_id []) \<union> set (map step_id steps)"
    using assms(2) by (auto simp: deps_present_def list_all_iff)
  from sort_loop_no_warning [OF assms(1) pres] obtain out where
    res: "sort_steps_by_dependencies steps = Inr (out, [])"
    by (auto simp: sort_steps_by_dependencies_def)
  from sort_steps_result [of steps] res have m: "mset out = mset steps" by auto
  from res have df: "deps_first out"
    unfolding sort_steps_by_dependencies_def by (rule sort_loop_deps_first [OF deps_first_empty])
  have ex: "\<forall>i < length out. \<forall>d \<in> set (deps_of (out ! i)). \<exists>j<i. step_id (out ! j) = d"
    using deps_first_nth [OF df] by blast
  have "\<forall>i j. i < length out \<and> j < length out
             \<and> step_id (out ! j) \<in> set (deps_of (out ! i)) \<longrightarrow> j < i"
    if dist: "distinct (map step_id steps)"
  proof (intro allI impI)
    fix i j assume a: "i < length out \<and> j < length out \<and> step_id (out ! j) \<in> set (deps_of (out ! i))"
    from m have "mset (map step_id out) = mset (map step_id steps)" by simp
    with dist have d': "distinct (map step_id out)" by (metis mset_eq_imp_distinct_iff)
    from a ex obtain k where k: "k < i" "step_id (out ! k) = step_id (out ! j)" by blast
    with a d' have "k = j"
      using nth_eq_iff_index_eq [of "map step_id out" k j] by simp
    with k show "j < i" by simp
  qed
  with res m ex show ?thesis by blast
qed

theorem run_order_respects_dependencies_witness:
  "acyclic (dep_rel [update_sheet_step, research_step])
   \<and> deps_present [update_sheet_step, research_step]
   \<and> distinct (map step_id [update_sheet_step, research_step])
   \<and> sort_steps_by_dependencies [update_sheet_step, research_step]
        = Inr ([research_step, update_sheet_step], [])
   \<and> step_id ([research_step, update_sheet_step] ! 0)
        \<in> set (deps_of ([research_step, update_sheet_step] ! 1))"
proof -
  have ac: "acyclic (dep_rel [update_sheet_step, research_step])"
    by (simp add: dep_rel_def deps_of_def research_step_def update_sheet_step_def acyclic_no_edges)
  have pr: "deps_present [update_sheet_step, research_step]"
    by (simp add: deps_present_def deps_of_def research_step_def update_sheet_step_def)
  have di: "distinct (map step_id [update_sheet_step, research_step])"
    by (simp add: research_step_def update_sheet_step_def)
  from run_order_respects_dependencies [OF ac pr] obtain run_order where
    r: "sort_steps_by_dependencies [update_sheet_step, research_step] = Inr (run_order, [])"
    by blast
  have "sort_steps_by_dependencies [update_sheet_step, research_step]
        = Inr ([research_step, update_sheet_step], [])"
    by (simp add: sort_steps_by_dependencies_def sort_loop.simps is_ready_def py_remove_def
          research_step_def update_sheet_step_def)
  with ac pr di r show ?thesis
    by (simp add: deps_of_def research_step_def update_sheet_step_def)
qed

text \<open>
  C3. For every list of workflow steps, the sort returns a run order and \<open>execute_workflow\<close>
  returns a \<open>WorkflowResult\<close> (whatever the tools and the summary do, returning or raising),
  with \<open>total_steps\<close> the length of the list and \<open>success\<close> true exactly when \<open>errors\<close>
  is empty. When the step ids are pairwise distinct and the \<open>depends_on\<close> references form
  a cycle or name an id that no step has, the warning of the sort is among the warnings
  recorded.
\<close>

theorem execute_workflow_always_returns:
  "\<exists>r run_order w. sort_steps_by_dependencies steps = Inr (run_order, w)
     \<and> execute_workflow tools env steps = (r, w)
     \<and> total_steps r = length steps
     \<and> (success r \<longleftrightarrow> errors r = [])
     \<and> (distinct (map step_id steps) \<and> (\<not> acyclic (dep_rel steps) \<or> \<not> deps_present steps)
          \<longrightarrow> circular_warning \<in> set w)"
proof -
  from sort_steps_result [of steps] obtain out w where
    s: "sort_steps_by_dependencies steps = Inr (out, w)" by blast
  then have "w = [] \<or> w = [circular_warning]"
    unfolding sort_steps_by_dependencies_def by (rule sort_log_cases)
  moreover have "acyclic (dep_rel steps) \<and> deps_present steps"
    if "distinct (map step_id steps)" and "w = []"
    using no_warning_wellformed [OF that(1)] s that(2) by simp
  ultimately have warn: "distinct (map step_id steps) \<and> (\<not> acyclic (dep_rel steps) \<or> \<not> deps_present steps)
          \<longrightarrow> circular_warning \<in> set w"
    by auto
  let ?st = "run_steps tools env out initial_state"
  show ?thesis
  proof (cases "generate_summary env steps (st_results ?st) (st_errors ?st)")
    case (Inl e)
    with s warn show ?thesis by (simp add: execute_workflow_def Let_def)
  next
    case (Inr final)
    with s warn show ?thesis by (simp add: execute_workflow_def Let_def)
  qed
qed

theorem execute_workflow_always_returns_witness:
  "distinct (map step_id [step_a, step_b])
   \<and> \<not> acyclic (dep_rel [step_a, step_b])
   \<and> snd (execute_workflow declining_tools quiet_env [step_a, step_b]) = [circular_warning]
   \<and> errors (fst (execute_workflow declining_tools quiet_env [step_a, step_b]))
       = [''Missing dependencies for step a: '' @ [CHR 0x5B, CHR 0x27] @ ''b'' @ [CHR 0x27, CHR 0x5D], ''Missing dependencies for step b: '' @ [CHR 0x5B, CHR 0x27] @ ''a'' @ [CHR 0x27, CHR 0x5D]]"
proof -
  have di: "distinct (map step_id [step_a, step_b])"
    by (simp add: step_a_def step_b_def)
  have cy: "\<not> acyclic (dep_rel [step_a, step_b])"
    by (auto simp add: dep_rel_def deps_of_def step_a_def step_b_def)
  have so: "sort_steps_by_dependencies [step_a, step_b] = Inr ([step_a, step_b], [circular_warning])"
    by (simp add: sort_steps_by_dependencies_def sort_loop.simps is_ready_def circular_warning_def
          step_a_def step_b_def)
  have er: "st_errors (run_steps declining_tools quiet_env [step_a, step_b] initial_state)
       = [''Missing dependencies for step a: '' @ [CHR 0x5B, CHR 0x27] @ ''b'' @ [CHR 0x27, CHR 0x5D], ''Missing dependencies for step b: '' @ [CHR 0x5B, CHR 0x27] @ ''a'' @ [CHR 0x27, CHR 0x5D]]"
    by (simp add: run_one_def missing_deps_def initial_state_def quiet_env_def step_a_def step_b_def
          repr_of_ids)
  have w1: "snd (execute_workflow declining_tools quiet_env [step_a, step_b]) = [circular_warning]"
    by (simp add: execute_workflow_def so Let_def quiet_env_def)
  have e1: "errors (fst (execute_workflow declining_tools quiet_env [step_a, step_b]))
       = [''Missing dependencies for step a: '' @ [CHR 0x5B, CHR 0x27] @ ''b'' @ [CHR 0x27, CHR 0x5D], ''Missing dependencies for step b: '' @ [CHR 0x5B, CHR 0x27] @ ''a'' @ [CHR 0x27, CHR 0x5D]]"
    using er by (simp add: execute_workflow_def so Let_def quiet_env_def)
  from execute_workflow_always_returns [of "[step_a, step_b]" declining_tools quiet_env] di cy
  obtain r w where "execute_workflow declining_tools quiet_env [step_a, step_b] = (r, w)"
    and "circular_warning \<in> set w"
    by blast
  show ?thesis using di cy w1 e1 by simp
qed

text \<open>
  C1. \<open>select_tool\<close> returns \<open>None\<close> only when no registered tool is named WebSearch.
  When every predicate returns for the query (as \<open>can_handle\<close> is typed) and a tool named
  WebSearch is registered, a registered tool is returned; when no predicate accepts the query
  the result is the first tool named WebSearch.
\<close>

theorem select_tool_fallback:
  "(snd (select_tool tools query) = Inr None \<longrightarrow> ''WebSearch'' \<notin> set (map name tools))
   \<and> ((\<forall>t \<in> set tools. \<exists>b. can_handle t query = Inr b) \<and> ''WebSearch'' \<in> set (map name tools)
        \<longrightarrow> (\<exists>t \<in> set tools. snd (select_tool tools query) = Inr (Some t)))
   \<and> ((\<forall>t \<in> set tools. can_handle t query = Inr False)
        \<longrightarrow> snd (select_tool tools query) = Inr (find (\<lambda>t. name t = ''WebSearch'') tools))"
proof (intro conjI impI)
  assume "snd (select_tool tools query) = Inr None"
  then have "find (\<lambda>t. name t = ''WebSearch'') tools = None" by (rule select_tool_None)
  then show "''WebSearch'' \<notin> set (map name tools)" by (auto simp: find_None_iff)
next
  assume a: "(\<forall>t \<in> set tools. \<exists>b. can_handle t query = Inr b) \<and> ''WebSearch'' \<in> set (map name tools)"
  then obtain suitable where c: "collect_suitable tools query = Inr suitable"
    using collect_suitable_returns by blast
  from a obtain ws where ws: "ws \<in> set tools" "find (\<lambda>t. name t = ''WebSearch'') tools = Some ws"
    using find_web_search by blast
  show "\<exists>t \<in> set tools. snd (select_tool tools query) = Inr (Some t)"
  proof (cases "if suitable \<noteq> [] then first_by_priority priority_order suitable else None")
    case None
    with c ws show ?thesis by (simp add: select_tool_def)
  next
    case (Some t)
    then have "t \<in> set suitable" by (auto split: if_splits dest: first_by_priority_member)
    with collect_suitable_subset [OF c] have "t \<in> set tools" by blast
    with c Some show ?thesis by (auto simp add: select_tool_def)
  qed
next
  assume a: "\<forall>t \<in> set tools. can_handle t query = Inr False"
  then have "collect_suitable tools query = Inr (filter (\<lambda>t. can_handle t query = Inr True) tools)"
    by (intro collect_suitable_returns) auto
  moreover have "filter (\<lambda>t. can_handle t query = Inr True) tools = []"
    using a by (auto simp: filter_empty_conv)
  ultimately show "snd (select_tool tools query) = Inr (find (\<lambda>t. name t = ''WebSearch'') tools)"
    by (auto simp: select_tool_def split: option.splits)
qed

theorem select_tool_fallback_witness:
  "list_all (\<lambda>t. can_handle t ''asdf qwer'' = Inr False) declining_tools
   \<and> ''WebSearch'' \<in> set (map name declining_tools)
   \<and> select_tool declining_tools ''asdf qwer'' = ([], Inr (Some (declining ''WebSearch'')))"
proof -
  have a: "\<forall>t \<in> set declining_tools. can_handle t ''asdf qwer'' = Inr False"
    by (simp add: declining_tools_def declining_def registered_names_def)
  then have b: "\<forall>t \<in> set declining_tools. \<exists>b. can_handle t ''asdf qwer'' = Inr b" by blast
  have c: "''WebSearch'' \<in> set (map name declining_tools)"
    by (simp add: declining_tools_def declining_def registered_names_def)
  have f: "find (\<lambda>t. name t = ''WebSearch'') declining_tools = Some (declining ''WebSearch'')"
    by (simp add: declining_tools_def declining_def registered_names_def)
  have ev: "select_tool declining_tools ''asdf qwer'' = ([], Inr (Some (declining ''WebSearch'')))"
    by (simp add: select_tool_def declining_tools_def declining_def registered_names_def)
  from select_tool_fallback [of declining_tools "''asdf qwer''"] b c
  obtain t where "t \<in> set declining_tools" "snd (select_tool declining_tools ''asdf qwer'') = Inr (Some t)"
    by blast
  show ?thesis using a c ev by (simp add: list_all_iff)
qed

text \<open>
  C4, as stated, fails: a predicate that raises is not treated as false. With a tool whose
  predicate raises registered before WebSearch, \<open>select_tool\<close> ends with that exception
  and logs no warning.
\<close>

theorem select_tool_raises_counterexample:
  "select_tool [declining ''Weather'', raising_tool, declining ''WebSearch''] ''play a song''
     = ([], Inl (RuntimeError ''boom''))"
  by (simp add: select_tool_def declining_def raising_tool_def)

text \<open>
  C4, amended. If the predicate of some registered tool raises for the query and the
  predicates of the tools registered before it return, then, whatever tools are registered
  after it, \<open>select_tool\<close> logs no warning and the exception leaves \<open>select_tool\<close>: the
  predicate is not treated as false.
\<close>

theorem select_tool_propagates:
  assumes "\<forall>u \<in> set pre. \<exists>b. can_handle u query = Inr b" and "can_handle t query = Inl e"
  shows "select_tool (pre @ t # post) query = ([], Inl e)"
  using collect_suitable_raises [OF assms] by (simp add: select_tool_def)

theorem select_tool_propagates_witness:
  "list_all (\<lambda>u. \<exists>b. can_handle u ''play a song'' = Inr b) [declining ''Weather'']
   \<and> can_handle raising_tool ''play a song'' = Inl (RuntimeError ''boom'')
   \<and> select_tool ([declining ''Weather''] @ raising_tool # [declining ''WebSearch'']) ''play a song''
       = ([], Inl (RuntimeError ''boom''))"
proof -
  have a: "\<forall>u \<in> set [declining ''Weather'']. \<exists>b. can_handle u ''play a song'' = Inr b"
    by (auto simp add: declining_def)
  have b: "can_handle raising_tool ''play a song'' = Inl (RuntimeError ''boom'')"
    by (simp add: raising_tool_def)
  from select_tool_propagates [OF a b, of "[declining ''WebSearch'']"] a b show ?thesis
    by (simp add: list_all_iff)
qed

text \<open>
  C5, as stated, fails in one part: the results mapping can hold an entry under the id of a
  step whose execution raised, because output variables share the mapping with the step ids.
  Here the weather step stores its output under \<open>weather_data\<close> too, and the step with the id
  \<open>weather_data\<close> raises.
\<close>

theorem failed_step_id_in_results_counterexample:
  "execute_step declining_tools mail_down_env weather_data_step
      (st_results (run_steps declining_tools mail_down_env [weather_check_step] initial_state))
     = Inl (RuntimeError ''SMTP down'')
   \<and> sort_steps_by_dependencies [weather_check_step, weather_data_step]
       = Inr ([weather_check_step, weather_data_step], [])
   \<and> errors (fst (execute_workflow declining_tools mail_down_env [weather_check_step, weather_data_step]))
       = [''Error in step weather_data: SMTP down'']
   \<and> results (fst (execute_workflow declining_tools mail_down_env [weather_check_step, weather_data_step]))
        (step_id weather_data_step) = Some (PyStr ''sunny'')"
proof -
  have so: "sort_steps_by_dependencies [weather_check_step, weather_data_step]
       = Inr ([weather_check_step, weather_data_step], [])"
    by (simp add: sort_steps_by_dependencies_def sort_loop.simps is_ready_def py_remove_def
          weather_check_step_def weather_data_step_def)
  have st: "st_results (run_steps declining_tools mail_down_env [weather_check_step] initial_state)
      = [''weather_check'' \<mapsto> PyStr ''sunny'', ''weather_data'' \<mapsto> PyStr ''sunny'']"
    by (simp add: run_one_def missing_deps_def execute_step_def initial_state_def mail_down_env_def
          weather_check_step_def declining_tools_def registered_names_def declining_def)
  have ex: "execute_step declining_tools mail_down_env weather_data_step
      (st_results (run_steps declining_tools mail_down_env [weather_check_step] initial_state))
     = Inl (RuntimeError ''SMTP down'')"
    unfolding st
    by (simp add: execute_step_def mail_down_env_def weather_data_step_def declining_tools_def
          registered_names_def declining_def)
  have fin: "run_steps declining_tools mail_down_env [weather_check_step, weather_data_step] initial_state
     = \<lparr>st_results = [''weather_check'' \<mapsto> PyStr ''sunny'', ''weather_data'' \<mapsto> PyStr ''sunny''],
        st_errors = [''Error in step weather_data: SMTP down''], st_completed = 1\<rparr>"
    by (simp add: run_one_def missing_deps_def execute_step_def initial_state_def mail_down_env_def
          step_error_message_def weather_check_step_def weather_data_step_def
          declining_tools_def registered_names_def declining_def)
  show ?thesis
    using so ex fin
    by (simp add: execute_workflow_def Let_def mail_down_env_def weather_data_step_def)
qed

text \<open>
  C5, amended. If a step of the run order reaches its execution (no dependency missing)
  and the execution raises, then: the loop goes on with the steps after it from the state
  before it, changed only by the formatted error string appended to the errors (nothing is
  stored for the step, the count of completed steps is unchanged, no abort and no retry);
  the error string is in the errors of the result; \<open>success\<close> is false, and it is true exactly
  when the errors are empty; and the results hold no entry under the step's id provided no
  other step of the run order has that id as its step id or as its output variable.
\<close>

theorem failed_step_recorded_and_skipped:
  assumes so: "sort_steps_by_dependencies steps = Inr (pre @ step # post, w)"
    and md: "missing_deps step (st_results (run_steps tools env pre initial_state)) = []"
    and ex: "execute_step tools env step (st_results (run_steps tools env pre initial_state)) = Inl e"
  shows "run_steps tools env (pre @ step # post) initial_state
           = run_steps tools env post
               ((run_steps tools env pre initial_state)
                  \<lparr>st_errors := st_errors (run_steps tools env pre initial_state)
                                  @ [step_error_message step e]\<rparr>)
       \<and> step_error_message step e \<in> set (errors (fst (execute_workflow tools env steps)))
       \<and> \<not> success (fst (execute_workflow tools env steps))
       \<and> (success (fst (execute_workflow tools env steps))
            \<longleftrightarrow> errors (fst (execute_workflow tools env steps)) = [])
       \<and> ((\<forall>t \<in> set (pre @ post). step_id t \<noteq> step_id step \<and> output_variable t \<noteq> Some (step_id step))
            \<longrightarrow> results (fst (execute_workflow tools env steps)) (step_id step) = None)"
proof -
  let ?before = "run_steps tools env pre initial_state"
  let ?failed = "?before\<lparr>st_errors := st_errors ?before @ [step_error_message step e]\<rparr>"
  let ?r = "fst (execute_workflow tools env steps)"
  have run: "run_steps tools env (pre @ step # post) initial_state = run_steps tools env post ?failed"
    by (simp add: run_steps_append run_one_raise [OF md ex])
  from run_steps_errors [of tools env post ?failed] obtain more where
    "st_errors (run_steps tools env post ?failed) = st_errors ?failed @ more" by blast
  with run have "step_error_message step e \<in> set (st_errors (run_steps tools env (pre @ step # post) initial_state))"
    by simp
  with execute_workflow_fields(2) [OF so] have mem: "step_error_message step e \<in> set (errors ?r)"
    by blast
  have iff: "success ?r \<longleftrightarrow> errors ?r = []" by (rule execute_workflow_fields(3) [OF so])
  with mem have ns: "\<not> success ?r" by auto
  have "results ?r (step_id step) = None"
    if other: "\<forall>t \<in> set (pre @ post). step_id t \<noteq> step_id step \<and> output_variable t \<noteq> Some (step_id step)"
  proof -
    have "results ?r (step_id step) = st_results (run_steps tools env post ?failed) (step_id step)"
      using execute_workflow_fields(1) [OF so] run by simp
    also have "\<dots> = st_results ?failed (step_id step)"
      using other by (intro run_steps_other_key) auto
    also have "\<dots> = st_results ?before (step_id step)" by simp
    also have "\<dots> = st_results initial_state (step_id step)"
      using other by (intro run_steps_other_key) auto
    finally show ?thesis by (simp add: initial_state_def)
  qed
  with run mem ns iff show ?thesis by blast
qed

theorem failed_step_recorded_and_skipped_witness:
  "sort_steps_by_dependencies [weather_check_step, compose_email_step, log_sheet_step]
     = Inr ([weather_check_step] @ compose_email_step # [log_sheet_step], [])
   \<and> missing_deps compose_email_step
        (st_results (run_steps declining_tools mail_down_env [weather_check_step] initial_state)) = []
   \<and> execute_step declining_tools mail_down_env compose_email_step
        (st_results (run_steps declining_tools mail_down_env [weather_check_step] initial_state))
       = Inl (RuntimeError ''SMTP down'')
   \<and> errors (fst (execute_workflow declining_tools mail_down_env
                    [weather_check_step, compose_email_step, log_sheet_step]))
       = [''Error in step compose_email: SMTP down'']
   \<and> \<not> success (fst (execute_workflow declining_tools mail_down_env
                    [weather_check_step, compose_email_step, log_sheet_step]))
   \<and> results (fst (execute_workflow declining_tools mail_down_env
                    [weather_check_step, compose_email_step, log_sheet_step])) ''compose_email'' = None
   \<and> results (fst (execute_workflow declining_tools mail_down_env
                    [weather_check_step, compose_email_step, log_sheet_step])) ''log_sheet''
       = Some (PyStr ''sunny'')"
proof -
  let ?steps = "[weather_check_step, compose_email_step, log_sheet_step]"
  have so: "sort_steps_by_dependencies ?steps
      = Inr ([weather_check_step] @ compose_email_step # [log_sheet_step], [])"
    by (simp add: sort_steps_by_dependencies_def sort_loop.simps is_ready_def py_remove_def
          weather_check_step_def compose_email_step_def log_sheet_step_def)
  have st: "st_results (run_steps declining_tools mail_down_env [weather_check_step] initial_state)
      = [''weather_check'' \<mapsto> PyStr ''sunny'', ''weather_data'' \<mapsto> PyStr ''sunny'']"
    by (simp add: run_one_def missing_deps_def execute_step_def initial_state_def mail_down_env_def
          weather_check_step_def declining_tools_def registered_names_def declining_def)
  have md: "missing_deps compose_email_step
        (st_results (run_steps declining_tools mail_down_env [weather_check_step] initial_state)) = []"
    unfolding st by (simp add: missing_deps_def compose_email_step_def)
  have ex: "execute_step declining_tools mail_down_env compose_email_step
        (st_results (run_steps declining_tools mail_down_env [weather_check_step] initial_state))
       = Inl (RuntimeError ''SMTP down'')"
    unfolding st
    by (simp add: execute_step_def mail_down_env_def compose_email_step_def declining_tools_def
          registered_names_def declining_def)
  have fin: "run_steps declining_tools mail_down_env ?steps initial_state
     = \<lparr>st_results = [''weather_check'' \<mapsto> PyStr ''sunny'', ''weather_data'' \<mapsto> PyStr ''sunny'',
                       ''log_sheet'' \<mapsto> PyStr ''sunny''],
        st_errors = [''Error in step compose_email: SMTP down''], st_completed = 2\<rparr>"
    by (simp add: run_one_def missing_deps_def execute_step_def initial_state_def mail_down_env_def
          step_error_message_def weather_check_step_def compose_email_step_def log_sheet_step_def
          declining_tools_def registered_names_def declining_def)
  have er: "errors (fst (execute_workflow declining_tools mail_down_env ?steps))
       = [''Error in step compose_email: SMTP down'']"
    using so fin by (simp add: execute_workflow_def Let_def mail_down_env_def)
  have lg: "results (fst (execute_workflow declining_tools mail_down_env ?steps)) ''log_sheet''
       = Some (PyStr ''sunny'')"
    using so fin by (simp add: execute_workflow_def Let_def mail_down_env_def)
  have other: "\<forall>t \<in> set ([weather_check_step] @ [log_sheet_step]).
        step_id t \<noteq> step_id compose_email_step \<and> output_variable t \<noteq> Some (step_id compose_email_step)"
    by (simp add: weather_check_step_def compose_email_step_def log_sheet_step_def)
  from failed_step_recorded_and_skipped [OF so md ex] other
  have "\<not> success (fst (execute_workflow declining_tools mail_down_env ?steps))"
    and "results (fst (execute_workflow declining_tools mail_down_env ?steps)) (step_id compose_email_step) = None"
    by blast+
  then show ?thesis using so md ex er lg by (simp add: compose_email_step_def)
qed

text \<open>
  C9, as stated, fails: for a conversation whose only message is "hello" the topics do not
  contain "General conversation". The keyword "hello" belongs to the topic "General", and
  "General conversation" is added only when no topic keyword occurs.
\<close>

theorem analyze_single_hello_counterexample:
  "messages (the (conversations hello_memory ''u1'')) = [hello_message]
   \<and> content hello_message = ''hello''
   \<and> ''General conversation'' \<notin> set (topics (analyze_conversation hello_memory ''u1''))"
  by (simp add: hello_memory_def agent_memory_def new_memory_def analyze_conversation_def Let_def
        topics_hello hello_message_def)

text \<open>
  C9, amended. For a conversation that holds exactly one message, with content "hello",
  \<open>analyze_conversation\<close> returns a record with \<open>has_conversation\<close> true, the topics list
  \<open>["General"]\<close>, and a non-empty insights list (its five entries are given).
\<close>

theorem analyze_single_hello:
  assumes "conversations mem uid = Some conv" and "messages conv = [m]" and "content m = ''hello''"
  shows "has_conversation (analyze_conversation mem uid)
       \<and> topics (analyze_conversation mem uid) = [''General'']
       \<and> insights (analyze_conversation mem uid)
           = [''Brief conversation session'', ''Focused on single topic'',
              ''Neutral conversation tone'', ''Low question engagement'', ''Quick interaction'']
       \<and> insights (analyze_conversation mem uid) \<noteq> []"
  using assms
  by (simp add: analyze_conversation_def Let_def topics_hello sentiment_hello insights_hello)

theorem analyze_single_hello_witness:
  "conversations hello_memory ''u1''
     = Some \<lparr>conv_user_id = ''u1'', messages = [hello_message],
             created_at = 1700000000, last_updated = 1700000000\<rparr>
   \<and> content hello_message = ''hello''
   \<and> has_conversation (analyze_conversation hello_memory ''u1'')
   \<and> topics (analyze_conversation hello_memory ''u1'') = [''General'']
   \<and> length (insights (analyze_conversation hello_memory ''u1'')) = 5"
proof -
  have a: "conversations hello_memory ''u1''
     = Some \<lparr>conv_user_id = ''u1'', messages = [hello_message],
             created_at = 1700000000, last_updated = 1700000000\<rparr>"
    by (simp add: hello_memory_def agent_memory_def new_memory_def)
  have c: "content hello_message = ''hello''" by (simp add: hello_message_def)
  from analyze_single_hello [OF a _ c] a c show ?thesis by simp
qed

text \<open>
  C6, as stated, fails on the cap: the default of \<open>max_messages_per_conversation\<close> in the
  constructor of \<open>ConversationMemory\<close> is 100, not 50, so a memory built with the defaults
  holds 51 messages after 51 calls; and with a cap of 0 the slice \<open>messages[-0:]\<close> keeps
  everything, so the list is longer than the cap.
\<close>

theorem message_cap_counterexample:
  "default_max_messages_per_conversation = 100
   \<and> max_messages_per_conversation (default_memory Map.empty) = 100
   \<and> length (messages (the (conversations (say 51 (default_memory Map.empty)) ''u1''))) = 51
   \<and> max_messages_per_conversation (new_memory 1000 0 Map.empty) = 0
   \<and> length (messages (the (conversations
        (add_user_message (new_memory 1000 0 Map.empty) ''u1'' ''hi'' (tick 1)) ''u1''))) = 1"
proof -
  have a: "length (messages (the (conversations (say 51 (default_memory Map.empty)) ''u1''))) = 51"
    by (simp add: eval_nat_numeral add_user_message_def add_role_message_def
          cleanup_conversation_def clear_old_messages_def add_message_def
          get_or_create_conversation_def default_memory_def new_memory_def tick_def py_slice_last_def
          default_max_conversations_def default_max_messages_per_conversation_def)
  have b: "length (messages (the (conversations
        (add_user_message (new_memory 1000 0 Map.empty) ''u1'' ''hi'' (tick 1)) ''u1''))) = 1"
    by (simp add: add_user_message_def add_role_message_def
          cleanup_conversation_def clear_old_messages_def add_message_def
          get_or_create_conversation_def new_memory_def tick_def py_slice_last_def)
  show ?thesis using a b
    by (simp add: default_memory_def new_memory_def default_max_messages_per_conversation_def)
qed

text \<open>
  C6, amended. For every memory with a positive per-conversation cap, every user and every
  call of \<open>add_user_message\<close> or \<open>add_assistant_message\<close>, from any state: after the call
  the conversation's message list has length at most the cap; it is what the age filter
  leaves of the last cap-many messages of the list with the new message appended; and when
  the time stamps of that list are non-decreasing (the data model's invariant, with a clock
  that does not run backwards), the messages retained are a suffix of it, the most recent
  ones, again with non-decreasing time stamps. The cap defaults to 100 in the constructor;
  the agent builds its memory with 50.
\<close>

theorem add_message_bounded:
  assumes cap: "0 < max_messages_per_conversation mem"
    and old: "old = messages (get_or_create_conversation mem uid clk)"
    and new: "new = \<lparr>role = r, content = body, timestamp = t_message clk,
                      user_id = conv_user_id (get_or_create_conversation mem uid clk)\<rparr>"
    and kept: "kept = messages (the (conversations (add_role_message r mem uid body clk) uid))"
  shows "int (length kept) \<le> max_messages_per_conversation mem
       \<and> kept = filter (\<lambda>msg. timestamp msg > t_cleanup clk - 86400)
                  (drop (Suc (length old) - nat (max_messages_per_conversation mem)) (old @ [new]))
       \<and> (sorted (map timestamp (old @ [new]))
            \<longrightarrow> (\<exists>k. kept = drop k (old @ [new])) \<and> sorted (map timestamp kept))
       \<and> max_messages_per_conversation (default_memory loaded) = 100
       \<and> max_messages_per_conversation (agent_memory loaded) = 50"
proof -
  have caps: "max_messages_per_conversation (default_memory loaded) = 100"
    "max_messages_per_conversation (agent_memory loaded) = 50"
    by (simp_all add: default_memory_def agent_memory_def new_memory_def
          default_max_messages_per_conversation_def)
  define xs where "xs = old @ [new]"
  define cap where "cap = max_messages_per_conversation mem"
  define trim where "trim = drop (length xs - nat cap) xs"
  have len: "length xs = Suc (length old)" by (simp add: xs_def)
  have k: "kept = filter (\<lambda>msg. timestamp msg > t_cleanup clk - 86400) trim"
  proof -
    have x: "xs = messages (get_or_create_conversation mem uid clk)
                  @ [\<lparr>role = r, content = body, timestamp = t_message clk,
                       user_id = conv_user_id (get_or_create_conversation mem uid clk)\<rparr>]"
      by (simp add: xs_def old new)
    have c: "0 < cap" using cap by (simp add: cap_def)
    show ?thesis
      unfolding kept messages_after_add [OF x] trim_def cap_def [symmetric]
      by (simp only: trim_to_cap [OF c])
  qed
  have "length trim \<le> nat cap" by (simp add: trim_def)
  moreover have "length kept \<le> length trim" unfolding k by (rule length_filter_le)
  ultimately have bound: "int (length kept) \<le> cap" using cap by (simp add: cap_def)
  have suffix: "(\<exists>k. kept = drop k xs) \<and> sorted (map timestamp kept)"
    if s: "sorted (map timestamp xs)"
  proof -
    from s have "sorted (map timestamp trim)"
      unfolding trim_def drop_map [symmetric] by (rule sorted_wrt_drop)
    from filter_sorted_suffix [OF this, of "t_cleanup clk - 86400"] k
    obtain j where "kept = drop j trim" by auto
    then have e: "kept = drop (j + (length xs - nat cap)) xs" by (simp add: trim_def)
    from s have "sorted (map timestamp (drop (j + (length xs - nat cap)) xs))"
      unfolding drop_map [symmetric] by (rule sorted_wrt_drop)
    with e show ?thesis by metis
  qed
  from bound k suffix caps show ?thesis
    unfolding trim_def len unfolding xs_def cap_def by blast
qed

theorem add_message_bounded_witness:
  "0 < max_messages_per_conversation (say 3 (new_memory 1000 3 Map.empty))
   \<and> map timestamp (messages (the (conversations (say 3 (new_memory 1000 3 Map.empty)) ''u1'')))
       = [1, 2, 3]
   \<and> map timestamp (messages (the (conversations
         (add_role_message ''user'' (say 3 (new_memory 1000 3 Map.empty)) ''u1'' ''hi'' (tick 4)) ''u1'')))
       = [2, 3, 4]"
proof -
  let ?mem = "say 3 (new_memory 1000 3 Map.empty)"
  have cap: "0 < max_messages_per_conversation ?mem"
    by (simp add: eval_nat_numeral add_user_message_def add_role_message_def new_memory_def)
  have before: "map timestamp (messages (the (conversations ?mem ''u1''))) = [1, 2, 3]"
    by (simp add: eval_nat_numeral add_user_message_def add_role_message_def
          cleanup_conversation_def clear_old_messages_def add_message_def
          get_or_create_conversation_def new_memory_def tick_def py_slice_last_def)
  have after: "map timestamp (messages (the (conversations
         (add_role_message ''user'' ?mem ''u1'' ''hi'' (tick 4)) ''u1''))) = [2, 3, 4]"
    by (simp add: eval_nat_numeral add_user_message_def add_role_message_def
          cleanup_conversation_def clear_old_messages_def add_message_def
          get_or_create_conversation_def new_memory_def tick_def py_slice_last_def)
  from add_message_bounded [where uid = "''u1''" and clk = "tick 4" and r = "''user''"
      and body = "''hi''", OF cap refl refl refl]
  have "int (length (messages (the (conversations
         (add_role_message ''user'' ?mem ''u1'' ''hi'' (tick 4)) ''u1'')))) \<le> max_messages_per_conversation ?mem"
    by blast
  with cap before after show ?thesis by simp
qed

text \<open>
  C8 fails on the code. The id of a parsed step and the id it waits for are numbered by the
  index of the line in the response, not by the count of parsed steps. With a line before
  the first step, the first parsed step is \<open>step_2\<close> and waits for \<open>step_1\<close>, which no step
  has; with an empty line between two steps the second is \<open>step_3\<close> and waits for \<open>step_2\<close>,
  which no step has. In both lists a \<open>depends_on\<close> id names no step of the list.
\<close>

theorem parsed_steps_wait_for_absent_ids:
  "map (\<lambda>s. (step_id s, tool_name s, action s, depends_on s))
       (snd (parse_ai_workflow_response plan_response ''weather then mail''))
     = [(''step_2'', ''Weather'', ''check the weather in Paris'', Some [''step_1'']),
        (''step_3'', ''Gmail'', ''send the forecast to the team'', Some [''step_2''])]
   \<and> \<not> deps_present (snd (parse_ai_workflow_response plan_response ''weather then mail''))
   \<and> map (\<lambda>s. (step_id s, tool_name s, action s, depends_on s))
       (snd (parse_ai_workflow_response spaced_response ''weather then mail''))
     = [(''step_1'', ''Weather'', ''check the weather in Paris'', None),
        (''step_3'', ''Gmail'', ''send the forecast to the team'', Some [''step_2''])]
   \<and> \<not> deps_present (snd (parse_ai_workflow_response spaced_response ''weather then mail''))"
  unfolding parse_ai_workflow_response_def plan_lines spaced_lines plan_parse spaced_parse
  by (simp add: deps_present_def deps_of_def)

text \<open>
  C7 fails on the code. The message is "hi" followed by the smiling face; the handling
  branch returns exactly its stripped, lowercased text, so \<open>process_message\<close> asks the
  language model again with the rephrased prompt; the model answers with the same text.
  \<open>_format_response\<close> leaves a text that already holds one of its emoji as it is, and
  \<open>_handle_general_query\<close> compares it with the rephrased prompt only: the string returned is
  the echo.
\<close>

theorem echo_with_emoji_is_returned:
  "py_lower (py_strip (''hi '' @ smiling_face)) = ''hi '' @ smiling_face
   \<and> echo_path (py_strip (''hi '' @ smiling_face)) = Inr (Some (''hi '' @ smiling_face))
   \<and> process_message parrot_env echo_path (''hi '' @ smiling_face) = ''hi '' @ smiling_face"
  by code_simp

end
